theory Spec2Isabelle
  imports Complex_Main "HOL-Library.AList" "HOL-Library.Multiset"
begin

section \<open>Python values used by the dashboard script\<close>

text \<open>
  The script \<^verbatim>\<open>PyNS_GUI_app.py\<close> works on pandas tables. A column or index
  label is \<^verbatim>\<open>None\<close>, a string or an integer; \<open>py_str\<close> is Python's
  \<^verbatim>\<open>str\<close> on a label and \<open>truthy\<close> is its truth value (as used by
  \<^verbatim>\<open>x or "index"\<close>).
\<close>

datatype label = LNone | LStr string | LInt int

datatype cell = CNum rat | CNaN | CStr string | CInt int

datatype py_error =
    NoObjectsToConcatenate
  | CannotInsert label
  | LengthMismatch nat nat
  | InvalidIndex
  | IndexOutOfBounds
  | KeyMissing string
  | TypeErr

definition digit_char :: "nat \<Rightarrow> char" where
  "digit_char d = char_of (48 + d)"

fun str_nat :: "nat \<Rightarrow> string" where
  "str_nat n = (if n < 10 then [digit_char n] else str_nat (n div 10) @ [digit_char (n mod 10)])"

declare str_nat.simps [simp del]

definition str_int :: "int \<Rightarrow> string" where
  "str_int i = (if i < 0 then CHR ''-'' # str_nat (nat (- i)) else str_nat (nat i))"

fun py_str :: "label \<Rightarrow> string" where
  "py_str LNone = ''None''"
| "py_str (LStr s) = s"
| "py_str (LInt i) = str_int i"

fun truthy :: "label \<Rightarrow> bool" where
  "truthy LNone = False"
| "truthy (LStr s) = (s \<noteq> [])"
| "truthy (LInt i) = (i \<noteq> 0)"

definition py_or :: "label \<Rightarrow> label \<Rightarrow> label" where
  "py_or a b = (if truthy a then a else b)"

section \<open>Tables (pandas DataFrame)\<close>

text \<open>
  A table has a row index of one or more named levels (\<open>LNone\<close> for an unnamed level),
  a column header that is flat or two-level, and rows. Each row pairs its index entries
  (one per index level) with its data cells (one per column).
\<close>

datatype cols = Flat "label list" | Multi "(label \<times> label) list"

record table =
  index_names :: "label list"
  columns :: cols
  rows :: "(cell list \<times> cell list) list"

fun ncols :: "cols \<Rightarrow> nat" where
  "ncols (Flat cs) = length cs"
| "ncols (Multi cs) = length cs"

text \<open>\<^verbatim>\<open>df.index.name\<close>: the name of a single-level index; a multi-level index
  has no single name. \<^verbatim>\<open>df.index.names[-1]\<close>: the name of the last level.\<close>

definition index_name :: "table \<Rightarrow> label" where
  "index_name t = (case index_names t of [n] \<Rightarrow> n | _ \<Rightarrow> LNone)"

definition last_index_name :: "table \<Rightarrow> label" where
  "last_index_name t = (case rev (index_names t) of [] \<Rightarrow> LNone | n # _ \<Rightarrow> n)"

text \<open>\<^verbatim>\<open>label in df.columns\<close> (and \<^verbatim>\<open>label in df\<close>); on a two-level
  header a plain label is looked up in the outer level.\<close>

fun has_column :: "label \<Rightarrow> cols \<Rightarrow> bool" where
  "has_column l (Flat cs) = (l \<in> set cs)"
| "has_column l (Multi cs) = (l \<in> set (map fst cs))"

subsection \<open>reset_index\<close>

text \<open>
  \<^verbatim>\<open>df.reset_index()\<close> turns every index level into a leading column and gives the
  table a fresh unnamed range index. An unnamed single level becomes the column
  \<^verbatim>\<open>index\<close> (\<^verbatim>\<open>level_0\<close> when \<^verbatim>\<open>index\<close> is taken); unnamed levels of a
  multi-level index become \<^verbatim>\<open>level_i\<close>. The levels are inserted last first, each at
  position 0, and inserting a label that is already a column raises ValueError.
\<close>

definition index_column_names :: "table \<Rightarrow> label list" where
  "index_column_names t =
     (case index_names t of
        [n] \<Rightarrow> [if n = LNone
               then (if has_column (LStr ''index'') (columns t) then LStr ''level_0'' else LStr ''index'')
               else n]
      | ns \<Rightarrow> map (\<lambda>(i, n). if n = LNone then LStr (''level_'' @ str_nat i) else n)
               (zip [0..<length ns] ns))"

fun insert_label :: "label \<Rightarrow> cols \<Rightarrow> py_error + cols" where
  "insert_label n (Flat cs) = (if n \<in> set cs then Inl (CannotInsert n) else Inr (Flat (n # cs)))"
| "insert_label n (Multi cs) =
     (if (n, LStr '''') \<in> set cs then Inl (CannotInsert n) else Inr (Multi ((n, LStr '''') # cs)))"

fun insert_labels :: "label list \<Rightarrow> cols \<Rightarrow> py_error + cols" where
  "insert_labels [] c = Inr c"
| "insert_labels (n # ns) c =
     (case insert_labels ns c of Inl e \<Rightarrow> Inl e | Inr c' \<Rightarrow> insert_label n c')"

definition range_rows :: "cell list list \<Rightarrow> (cell list \<times> cell list) list" where
  "range_rows rs = map (\<lambda>(i, r). ([CInt (int i)], r)) (zip [0..<length rs] rs)"

definition reset_index :: "table \<Rightarrow> py_error + table" where
  "reset_index t =
     (case insert_labels (index_column_names t) (columns t) of
        Inl e \<Rightarrow> Inl e
      | Inr c \<Rightarrow> Inr \<lparr> index_names = [LNone], columns = c,
                      rows = range_rows (map (\<lambda>(ix, cs). ix @ cs) (rows t)) \<rparr>)"

subsection \<open>rename, insert, column slices, concat\<close>

text \<open>\<^verbatim>\<open>df.rename(columns={old: new})\<close>: every label equal to \<open>old\<close> becomes
  \<open>new\<close>; on a two-level header the mapping is applied to both levels.\<close>

definition rename_label :: "label \<Rightarrow> label \<Rightarrow> label \<Rightarrow> label" where
  "rename_label old new l = (if l = old then new else l)"

fun rename_cols :: "label \<Rightarrow> label \<Rightarrow> cols \<Rightarrow> cols" where
  "rename_cols old new (Flat cs) = Flat (map (rename_label old new) cs)"
| "rename_cols old new (Multi cs) =
     Multi (map (\<lambda>(a, b). (rename_label old new a, rename_label old new b)) cs)"

definition rename_columns :: "label \<Rightarrow> label \<Rightarrow> table \<Rightarrow> table" where
  "rename_columns old new t = t\<lparr> columns := rename_cols old new (columns t) \<rparr>"

text \<open>\<^verbatim>\<open>df.insert(0, label, value)\<close> on a flat header, with a scalar broadcast to
  every row. The script calls it only after checking that the label is absent.\<close>

definition insert_first :: "label \<Rightarrow> cell \<Rightarrow> table \<Rightarrow> py_error + table" where
  "insert_first l v t =
     (case insert_label l (columns t) of
        Inl e \<Rightarrow> Inl e
      | Inr c \<Rightarrow> Inr (t\<lparr> columns := c, rows := map (\<lambda>(ix, cs). (ix, v # cs)) (rows t) \<rparr>))"

text \<open>\<^verbatim>\<open>df.iloc[:, start:stop]\<close>: the columns at positions \<open>start \<le> j < stop\<close>.\<close>

definition slice :: "nat \<Rightarrow> nat \<Rightarrow> 'a list \<Rightarrow> 'a list" where
  "slice start stop xs = take (stop - start) (drop start xs)"

fun slice_cols :: "nat \<Rightarrow> nat \<Rightarrow> cols \<Rightarrow> cols" where
  "slice_cols s e (Flat cs) = Flat (slice s e cs)"
| "slice_cols s e (Multi cs) = Multi (slice s e cs)"

definition iloc_columns :: "nat \<Rightarrow> nat \<Rightarrow> table \<Rightarrow> table" where
  "iloc_columns s e t =
     t\<lparr> columns := slice_cols s e (columns t),
        rows := map (\<lambda>(ix, cs). (ix, slice s e cs)) (rows t) \<rparr>"

text \<open>\<^verbatim>\<open>df.columns = labels\<close>: a flat header replaces the old one; a list of the
  wrong length raises ValueError.\<close>

definition set_columns :: "label list \<Rightarrow> table \<Rightarrow> py_error + table" where
  "set_columns ls t =
     (if length ls = ncols (columns t) then Inr (t\<lparr> columns := Flat ls \<rparr>)
      else Inl (LengthMismatch (ncols (columns t)) (length ls)))"

text \<open>
  \<^verbatim>\<open>pd.concat(blocks, ignore_index=True)\<close>: no block raises ValueError. Blocks with
  the same header are stacked under it. Blocks with different headers are aligned on the
  union of their labels in order of first appearance, a missing cell being NaN; that needs
  unique labels in every block (and is modelled for flat headers only). The result has a
  fresh range index.
\<close>

fun flat_labels :: "cols \<Rightarrow> label list option" where
  "flat_labels (Flat cs) = Some cs"
| "flat_labels (Multi cs) = None"

definition reindex_row :: "label list \<Rightarrow> label list \<Rightarrow> cell list \<Rightarrow> cell list" where
  "reindex_row lbls ls cs =
     map (\<lambda>l. case map_of (zip ls cs) l of None \<Rightarrow> CNaN | Some c \<Rightarrow> c) lbls"

definition align_block :: "label list \<Rightarrow> table \<Rightarrow> (cell list \<times> cell list) list option" where
  "align_block lbls t =
     (case flat_labels (columns t) of
        None \<Rightarrow> None
      | Some ls \<Rightarrow> if distinct ls
                  then Some (map (\<lambda>(ix, cs). (ix, reindex_row lbls ls cs)) (rows t))
                  else None)"

definition all_some :: "'a option list \<Rightarrow> 'a list option" where
  "all_some xs = (if None \<in> set xs then None else Some (map the xs))"

definition pd_concat :: "table list \<Rightarrow> py_error + table" where
  "pd_concat blocks =
     (case blocks of
        [] \<Rightarrow> Inl NoObjectsToConcatenate
      | b # bs \<Rightarrow>
          if \<forall>t \<in> set bs. columns t = columns b
          then Inr \<lparr> index_names = [LNone], columns = columns b,
                     rows = range_rows (map snd (concat (map rows blocks))) \<rparr>
          else (let lbls = remdups (concat (map (\<lambda>t. case flat_labels (columns t) of
                                                         None \<Rightarrow> [] | Some ls \<Rightarrow> ls) blocks))
                in case all_some (map (align_block lbls) blocks) of
                     None \<Rightarrow> Inl InvalidIndex
                   | Some rss \<Rightarrow>
                       Inr \<lparr> index_names = [LNone], columns = Flat lbls,
                             rows = range_rows (map snd (concat rss)) \<rparr>))"

section \<open>Spectra reshaper\<close>

text \<open>
  \<^verbatim>\<open>spectra_to_rows(df, pos_names)\<close>, lines 107 to 130 of the script. The loop over
  \<^verbatim>\<open>enumerate(pos_names)\<close> is \<open>collect_blocks\<close>, which carries the position
  number \<open>i\<close>; \<open>make_block\<close> is the loop body after the width check.
\<close>

definition position_label :: label where
  "position_label = LStr ''Position''"

definition period_label :: label where
  "period_label = LStr ''Period''"

definition band_labels :: "(label \<times> label) list \<Rightarrow> label list" where
  "band_labels cs = take (length (remdups (map snd cs))) (map snd cs)"

definition make_block :: "table \<Rightarrow> label list \<Rightarrow> nat \<Rightarrow> string \<Rightarrow> py_error + table" where
  "make_block df bands i pos =
     (let set_len = length bands; start = i * set_len; stop = (i + 1) * set_len in
      case set_columns (map (\<lambda>b. LStr (py_str b)) bands) (iloc_columns start stop df) of
        Inl e \<Rightarrow> Inl e
      | Inr sub \<Rightarrow>
          (case reset_index sub of
             Inl e \<Rightarrow> Inl e
           | Inr sub1 \<Rightarrow>
               (let sub2 = rename_columns (py_or (last_index_name df) (LStr ''index'')) period_label sub1
                in if \<not> has_column position_label (columns sub2)
                   then insert_first position_label (CStr pos) sub2
                   else Inr sub2)))"

fun collect_blocks :: "table \<Rightarrow> label list \<Rightarrow> nat \<Rightarrow> string list \<Rightarrow> py_error + table list" where
  "collect_blocks df bands i [] = Inr []"
| "collect_blocks df bands i (pos # rest) =
     (if (i + 1) * length bands > ncols (columns df) then Inr []
      else (case make_block df bands i pos of
              Inl e \<Rightarrow> Inl e
            | Inr b \<Rightarrow> (case collect_blocks df bands (i + 1) rest of
                          Inl e \<Rightarrow> Inl e
                        | Inr bs \<Rightarrow> Inr (b # bs))))"

definition multi_branch :: "table \<Rightarrow> label list \<Rightarrow> string list \<Rightarrow> py_error + table" where
  "multi_branch df bands pos_names =
     (case collect_blocks df bands 0 pos_names of
        Inl e \<Rightarrow> Inl e
      | Inr blocks \<Rightarrow> pd_concat blocks)"

definition flat_branch :: "table \<Rightarrow> string list \<Rightarrow> py_error + table" where
  "flat_branch df pos_names =
     (case reset_index df of
        Inl e \<Rightarrow> Inl e
      | Inr r \<Rightarrow>
          (let tidy = rename_columns (py_or (index_name df) (LStr ''index'')) period_label r
           in if \<not> has_column position_label (columns tidy)
              then insert_first position_label
                     (CStr (case pos_names of [] \<Rightarrow> ''Pos1'' | p # _ \<Rightarrow> p)) tidy
              else Inr tidy))"

definition spectra_to_rows :: "table option \<Rightarrow> string list \<Rightarrow> py_error + table option" where
  "spectra_to_rows df pos_names =
     (case df of
        None \<Rightarrow> Inr None
      | Some d \<Rightarrow>
          (case columns d of
             Flat cs \<Rightarrow> map_sum id Some (flat_branch d pos_names)
           | Multi cs \<Rightarrow> map_sum id Some (multi_branch d (band_labels cs) pos_names)))"

section \<open>Session state and sidebar controls\<close>

text \<open>
  The two session keys of lines 24 to 27 and the sidebar block of lines 29 to 65. A key
  that is absent from the session gets its default; \<open>period_step\<close> is the comparison
  with the last period string (lines 58 to 60) and \<open>apply_step\<close> the button (lines 63
  to 65). With no uploaded file the script stops before the period controls (line 39).
\<close>

record view_state =
  apply_agg :: bool
  period_last :: string

definition init_session :: "bool option \<Rightarrow> string option \<Rightarrow> view_state" where
  "init_session a p =
     \<lparr> apply_agg = (case a of None \<Rightarrow> False | Some b \<Rightarrow> b),
       period_last = (case p of None \<Rightarrow> '''' | Some s \<Rightarrow> s) \<rparr>"

definition suffix_map :: "(string \<times> string) list" where
  "suffix_map = [(''second(s)'', ''s''), (''minute(s)'', ''min''), (''hour(s)'', ''h'')]"

definition build_period :: "int \<Rightarrow> string \<Rightarrow> string" where
  "build_period int_period period_select =
     str_int int_period @ (case map_of suffix_map period_select of None \<Rightarrow> '''' | Some s \<Rightarrow> s)"

definition period_step :: "string \<Rightarrow> view_state \<Rightarrow> view_state" where
  "period_step period st =
     (if period_last st \<noteq> period then st\<lparr> apply_agg := False, period_last := period \<rparr> else st)"

definition apply_step :: "bool \<Rightarrow> view_state \<Rightarrow> view_state" where
  "apply_step apply_agg_btn st = (if apply_agg_btn then st\<lparr> apply_agg := True \<rparr> else st)"

definition sidebar :: "'f list \<Rightarrow> int \<Rightarrow> string \<Rightarrow> bool \<Rightarrow> view_state \<Rightarrow> view_state \<times> string option" where
  "sidebar files int_period period_select apply_agg_btn st =
     (if files = [] then (st, None)
      else (let period = build_period int_period period_select
            in (apply_step apply_agg_btn (period_step period st), Some period)))"

section \<open>What the page shows\<close>

text \<open>
  Every Streamlit call that shows something is an event. A message is kept as its
  format and arguments: \<open>Error_load n e\<close> is
  \<^verbatim>\<open>Failed to load `n` into PyNS: e\<close>, \<open>Error_not_found n\<close> is
  \<^verbatim>\<open>Log for `n` not found.\<close>, \<open>Error_integration n e\<close> is
  \<^verbatim>\<open>Failed to apply integration period for `n`: e\<close>, \<open>Error_raw n e\<close> is
  \<^verbatim>\<open>Failed to load raw data for `n`: e\<close>, \<open>Warning_summary e\<close> is
  \<^verbatim>\<open>Summary unavailable: e\<close>, \<open>Warning_no_freq t\<close> is
  \<^verbatim>\<open>No frequency columns found for `t`.\<close> and \<open>Warning_missing s h\<close> is
  \<^verbatim>\<open>Required columns s missing in h.\<close> A chart is kept as the data handed to the
  plotting library, whose own behaviour is not modelled.
\<close>

datatype selection = Series "cell list" | Frame "cell list list"

datatype chart =
    Spectra_chart string table "label list" "(string \<times> nat) list"
  | Time_history selection selection selection selection
  | L90_distribution "rat option list" "(rat \<times> rat) list"

datatype exn = EngineError string | PandasError py_error

datatype ui =
    Error_load string string
  | Error_not_found string
  | Error_integration string exn
  | Error_raw string exn
  | Warning_summary string
  | Warning_no_freq string
  | Warning_missing "string set" string
  | Subheader string
  | Dataframe table
  | Plotly_chart chart

section \<open>The survey engine\<close>

text \<open>
  The engine (the PyNS package) is not part of the script. It is a parameter: the log
  constructor reads the file at a path of the disk, and every call either returns or
  raises, an exception being kept as its message. \<open>survey_cap\<close> says how a survey takes
  its logs: through \<^verbatim>\<open>add_log\<close>, through the field \<^verbatim>\<open>_logs\<close>, or not at all.
  A spectra accessor may be absent.
\<close>

type_synonym path = nat
type_synonym disk = "(path \<times> string) list"

datatype capability = AddLog | LogsField | NoLogAccess

record ('log, 'survey) engine =
  log_ctor :: "disk \<Rightarrow> path \<Rightarrow> string + 'log"
  as_interval :: "'log \<Rightarrow> string \<Rightarrow> string + table"
  log_master :: "'log \<Rightarrow> string + table"
  survey_cap :: capability
  new_survey :: "(string \<times> 'log) list \<Rightarrow> string + 'survey"
  resi_summary :: "'survey \<Rightarrow> string + table option"
  typical_leq_spectra :: "('survey \<Rightarrow> string + table option) option"
  lmax_spectra :: "('survey \<Rightarrow> string + table option) option"

section \<open>Log ingestion\<close>

text \<open>
  Lines 70 to 80. \<^verbatim>\<open>NamedTemporaryFile(delete=False)\<close> creates a file under a name
  that no file of the disk has (\<open>fresh_path\<close>) and the upload's bytes are written to
  it; the constructor runs on that path; \<^verbatim>\<open>finally: os.unlink(path)\<close> removes the
  file on both exits. \<^verbatim>\<open>logs[name] = log\<close> is the dictionary update, which keeps
  the place of a key that is already present.
\<close>

record upload =
  file_name :: string
  file_bytes :: string

record ('log) ingest =
  disk_of :: disk
  logs_of :: "(string \<times> 'log) list"
  shown :: "ui list"

definition fresh_path :: "disk \<Rightarrow> path" where
  "fresh_path d = Suc (fold max (map fst d) 0)"

definition unlink :: "path \<Rightarrow> disk \<Rightarrow> disk" where
  "unlink p d = filter (\<lambda>(q, b). q \<noteq> p) d"

definition load_file :: "('log, 'survey) engine \<Rightarrow> upload \<Rightarrow> 'log ingest \<Rightarrow> 'log ingest" where
  "load_file E upload_file s =
     (let path = fresh_path (disk_of s);
          written = (path, file_bytes upload_file) # disk_of s;
          s1 = (case log_ctor E written path of
                  Inr lg \<Rightarrow> s\<lparr> logs_of := AList.update (file_name upload_file) lg (logs_of s) \<rparr>
                | Inl err \<Rightarrow> s\<lparr> shown := shown s @ [Error_load (file_name upload_file) err] \<rparr>)
      in s1\<lparr> disk_of := unlink path written \<rparr>)"

definition load_files :: "('log, 'survey) engine \<Rightarrow> upload list \<Rightarrow> disk \<Rightarrow> 'log ingest" where
  "load_files E files d = fold (load_file E) files \<lparr> disk_of = d, logs_of = [], shown = [] \<rparr>"

section \<open>Survey and summary tables\<close>

text \<open>Lines 83 to 101. An exception anywhere in the \<^verbatim>\<open>try\<close> keeps the tables
  assigned so far and records its message.\<close>

record summary =
  summary_df :: "table option"
  leq_spec_df :: "table option"
  lmax_spec_df :: "table option"
  summary_error :: string

fun survey_logs :: "capability \<Rightarrow> (string \<times> 'log) list \<Rightarrow> (string \<times> 'log) list" where
  "survey_logs AddLog logs = logs"
| "survey_logs LogsField logs = logs"
| "survey_logs NoLogAccess logs = []"

definition optional_accessor ::
  "('survey \<Rightarrow> string + table option) option \<Rightarrow> 'survey \<Rightarrow> string + table option" where
  "optional_accessor f sv = (case f of None \<Rightarrow> Inr None | Some g \<Rightarrow> g sv)"

definition build_summary :: "('log, 'survey) engine \<Rightarrow> (string \<times> 'log) list \<Rightarrow> summary" where
  "build_summary E logs =
     (let none = \<lparr> summary_df = None, leq_spec_df = None, lmax_spec_df = None, summary_error = '''' \<rparr>
      in if logs \<noteq> [] then
           (case new_survey E (survey_logs (survey_cap E) logs) of
              Inl err \<Rightarrow> none\<lparr> summary_error := err \<rparr>
            | Inr sv \<Rightarrow>
                (case resi_summary E sv of
                   Inl err \<Rightarrow> none\<lparr> summary_error := err \<rparr>
                 | Inr sm \<Rightarrow>
                     (case optional_accessor (typical_leq_spectra E) sv of
                        Inl err \<Rightarrow> none\<lparr> summary_df := sm, summary_error := err \<rparr>
                      | Inr lq \<Rightarrow>
                          (case optional_accessor (lmax_spectra E) sv of
                             Inl err \<Rightarrow> none\<lparr> summary_df := sm, leq_spec_df := lq, summary_error := err \<rparr>
                           | Inr lm \<Rightarrow> none\<lparr> summary_df := sm, leq_spec_df := lq, lmax_spec_df := lm \<rparr>))))
         else none\<lparr> summary_error := ''No valid logs loaded.'' \<rparr>)"

section \<open>Column selection\<close>

text \<open>\<^verbatim>\<open>df[name]\<close>: a missing label raises KeyError, a label that occurs once
  gives its column, a label that occurs several times gives a table of those columns.\<close>

definition positions_of :: "label \<Rightarrow> label list \<Rightarrow> nat list" where
  "positions_of l ls = filter (\<lambda>j. ls ! j = l) [0..<length ls]"

definition cell_at :: "cell list \<Rightarrow> nat \<Rightarrow> cell" where
  "cell_at cs j = (if j < length cs then cs ! j else CNaN)"

definition select_column :: "string \<Rightarrow> label list \<Rightarrow> (cell list \<times> cell list) list \<Rightarrow> py_error + selection" where
  "select_column nm ls rs =
     (case positions_of (LStr nm) ls of
        [] \<Rightarrow> Inl (KeyMissing nm)
      | [j] \<Rightarrow> Inr (Series (map (\<lambda>(ix, cs). cell_at cs j) rs))
      | js \<Rightarrow> Inr (Frame (map (\<lambda>(ix, cs). map (cell_at cs) js) rs)))"

section \<open>Summary tab\<close>

text \<open>
  Lines 136 to 187. For every position name the chart loop selects the rows of the
  tidy table whose \<^verbatim>\<open>Position\<close> cell equals the name, and every selected row gives a
  trace, for which \<^verbatim>\<open>row["Period"]\<close> is read: that raises KeyError when the table
  has no \<^verbatim>\<open>Period\<close> column. \<open>trace_rows\<close> lists the traces as pairs of position
  name and row number. With several \<^verbatim>\<open>Position\<close> columns the comparison gives a
  boolean table, and indexing with it masks cells and drops no row, so that every row is
  visited. A chart is kept as its title, the tidy table, the frequency columns and the
  traces; trace modes and legend names are not modelled. An exception of
  \<open>spectra_to_rows\<close> or of the loop is not caught: it ends the run, which is the
  second component of the result.
\<close>

fun table_labels :: "cols \<Rightarrow> label list" where
  "table_labels (Flat cs) = cs"
| "table_labels (Multi cs) = map fst cs"

definition trace_rows :: "table \<Rightarrow> string list \<Rightarrow> py_error + (string \<times> nat) list" where
  "trace_rows tidy pos_list =
     (if pos_list = [] then Inr []
      else (case select_column ''Position'' (table_labels (columns tidy)) (rows tidy) of
              Inl e \<Rightarrow> Inl e
            | Inr (Series ps) \<Rightarrow>
                Inr (concat (map (\<lambda>pos. map (\<lambda>i. (pos, i))
                                          (filter (\<lambda>i. ps ! i = CStr pos) [0..<length ps]))
                             pos_list))
            | Inr (Frame f) \<Rightarrow>
                Inr (concat (map (\<lambda>pos. map (\<lambda>i. (pos, i)) [0..<length f]) pos_list))))"

fun spectra_charts :: "(string \<times> table option) list \<Rightarrow> string list \<Rightarrow> ui list \<times> py_error option" where
  "spectra_charts [] pos_list = ([], None)"
| "spectra_charts ((title, df_data) # rest) pos_list =
     (case spectra_to_rows df_data pos_list of
        Inl e \<Rightarrow> ([], Some e)
      | Inr None \<Rightarrow> spectra_charts rest pos_list
      | Inr (Some tidy) \<Rightarrow>
          (let freq_cols = filter (\<lambda>c. c \<notin> {position_label, period_label, LStr ''A''})
                             (table_labels (columns tidy))
           in if freq_cols \<noteq> [] then
                (case trace_rows tidy pos_list of
                   Inl e \<Rightarrow> ([], Some e)
                 | Inr traces \<Rightarrow>
                     if traces \<noteq> [] \<and> \<not> has_column period_label (columns tidy)
                     then ([], Some (KeyMissing ''Period''))
                     else (case spectra_charts rest pos_list of
                             (evs, crash) \<Rightarrow>
                               (Plotly_chart (Spectra_chart title tidy freq_cols traces) # evs, crash)))
              else (case spectra_charts rest pos_list of
                      (evs, crash) \<Rightarrow> (Warning_no_freq title # evs, crash))))"

definition summary_tab :: "summary \<Rightarrow> string list \<Rightarrow> ui list \<times> py_error option" where
  "summary_tab sm pos_list =
     (let head = [Subheader ''BS8233 Residential Summary'',
                  (case summary_df sm of
                     Some t \<Rightarrow> Dataframe t
                   | None \<Rightarrow> Warning_summary (summary_error sm))]
      in case spectra_charts [(''Typical Leq Spectra'', leq_spec_df sm),
                              (''Lmax Spectra'', lmax_spec_df sm)] pos_list of
           (evs, crash) \<Rightarrow> (head @ evs, crash))"

section \<open>Position tabs\<close>

subsection \<open>Source selection\<close>

text \<open>
  Lines 198 to 217. In the aggregated state the engine's interval call and the index
  reset are inside one \<^verbatim>\<open>try\<close>; an exception of either shows the integration
  error and the loop continues with the next tab. The raw state reads the master table
  the same way.
\<close>

definition select_source ::
  "('log, 'survey) engine \<Rightarrow> view_state \<Rightarrow> string \<Rightarrow> string \<Rightarrow> 'log \<Rightarrow> ui + table \<times> string" where
  "select_source E st period uf_name lg =
     (if apply_agg st then
        (case as_interval E lg period of
           Inl e \<Rightarrow> Inl (Error_integration uf_name (EngineError e))
         | Inr df \<Rightarrow>
             (case reset_index df of
                Inl e \<Rightarrow> Inl (Error_integration uf_name (PandasError e))
              | Inr r \<Rightarrow> Inr (rename_columns (py_or (index_name df) (LStr ''index''))
                                (LStr ''Timestamp'') r, ''Integrated Survey Data'')))
      else
        (case log_master E lg of
           Inl e \<Rightarrow> Inl (Error_raw uf_name (EngineError e))
         | Inr raw_master \<Rightarrow>
             (case reset_index raw_master of
                Inl e \<Rightarrow> Inl (Error_raw uf_name (PandasError e))
              | Inr r \<Rightarrow> Inr (rename_columns (LStr ''Time'') (LStr ''Timestamp'') r,
                              ''Raw Survey Data''))))"

subsection \<open>Flattened header\<close>

text \<open>
  Lines 220 to 227: a two-level header is joined with a space and stripped of leading
  and trailing whitespace; a flat header is left as it is. A character of the model is
  a code point below 256, and \<open>is_space\<close> holds for those of them that Python's
  \<^verbatim>\<open>str.strip()\<close> removes: tab to carriage return, the four separators
  \<^verbatim>\<open>0x1C\<close> to \<^verbatim>\<open>0x1F\<close>, the space, next line \<^verbatim>\<open>0x85\<close> and the no-break
  space \<^verbatim>\<open>0xA0\<close>.
\<close>

definition is_space :: "char \<Rightarrow> bool" where
  "is_space c = (c \<in> set [CHR 0x09, CHR 0x0A, CHR 0x0B, CHR 0x0C, CHR 0x0D,
                            CHR 0x1C, CHR 0x1D, CHR 0x1E, CHR 0x1F, CHR 0x20, CHR 0x85, CHR 0xA0])"

definition py_strip :: "string \<Rightarrow> string" where
  "py_strip s = rev (dropWhile is_space (rev (dropWhile is_space s)))"

definition flatten_label :: "label \<times> label \<Rightarrow> label" where
  "flatten_label = (\<lambda>(lvl0, lvl1).
     LStr (py_strip (py_str lvl0 @ '' '' @ (if lvl1 \<noteq> LNone then py_str lvl1 else ''''))))"

fun plot_columns :: "cols \<Rightarrow> label list" where
  "plot_columns (Flat cs) = cs"
| "plot_columns (Multi cs) = map flatten_label cs"

subsection \<open>L90 distribution\<close>

text \<open>
  Lines 277 to 289. A numeric cell is a rational or NaN. \<^verbatim>\<open>round(0)\<close> rounds to
  the nearest integer, a tie to the even one; \<^verbatim>\<open>sort_values\<close> puts NaN last;
  \<^verbatim>\<open>value_counts\<close> drops NaN and orders the distinct values by falling count (the
  order among equal counts does not matter below, since \<^verbatim>\<open>sort_index\<close> follows);
  \<^verbatim>\<open>iloc[-1]\<close> on an empty series raises IndexError.
\<close>

fun as_float :: "cell \<Rightarrow> py_error + rat option" where
  "as_float (CNum r) = Inr (Some r)"
| "as_float CNaN = Inr None"
| "as_float (CInt i) = Inr (Some (of_int i))"
| "as_float (CStr s) = Inl TypeErr"

fun as_floats :: "cell list \<Rightarrow> py_error + rat option list" where
  "as_floats [] = Inr []"
| "as_floats (c # cs) =
     (case as_float c of
        Inl e \<Rightarrow> Inl e
      | Inr x \<Rightarrow> (case as_floats cs of Inl e \<Rightarrow> Inl e | Inr xs \<Rightarrow> Inr (x # xs)))"

definition round_half_even :: "rat \<Rightarrow> int" where
  "round_half_even x =
     (let f = \<lfloor>x\<rfloor>; d = x - of_int f
      in if d < 1 / 2 then f else if 1 / 2 < d then f + 1 else if even f then f else f + 1)"

definition round0 :: "rat option list \<Rightarrow> rat option list" where
  "round0 xs = map (map_option (\<lambda>x. of_int (round_half_even x))) xs"

definition dropna :: "rat option list \<Rightarrow> rat list" where
  "dropna xs = concat (map (\<lambda>x. case x of None \<Rightarrow> [] | Some v \<Rightarrow> [v]) xs)"

definition sort_values :: "rat option list \<Rightarrow> rat option list" where
  "sort_values xs = map Some (sort (dropna xs)) @ filter (\<lambda>x. x = None) xs"

definition value_counts :: "rat option list \<Rightarrow> (rat \<times> nat) list" where
  "value_counts xs =
     (let vs = dropna xs
      in sort_key (\<lambda>(v, c). - int c) (map (\<lambda>v. (v, count_list vs v)) (remdups vs)))"

definition sort_index :: "(rat \<times> nat) list \<Rightarrow> (rat \<times> nat) list" where
  "sort_index kvs = sort_key fst kvs"

fun cumsum_from :: "nat \<Rightarrow> (rat \<times> nat) list \<Rightarrow> (rat \<times> nat) list" where
  "cumsum_from acc [] = []"
| "cumsum_from acc ((k, c) # rest) = (k, acc + c) # cumsum_from (acc + c) rest"

definition cumsum :: "(rat \<times> nat) list \<Rightarrow> (rat \<times> nat) list" where
  "cumsum kvs = cumsum_from 0 kvs"

definition to_percent :: "(rat \<times> nat) list \<Rightarrow> py_error + (rat \<times> rat) list" where
  "to_percent cum =
     (if cum = [] then Inl IndexOutOfBounds
      else Inr (map (\<lambda>(k, c). (k, rat_of_nat c / rat_of_nat (snd (last cum)) * 100)) cum))"

definition l90_cumulative :: "rat option list \<Rightarrow> py_error + (rat \<times> rat) list" where
  "l90_cumulative l90 =
     to_percent (cumsum (sort_index (value_counts (sort_values (round0 l90)))))"

definition l90_chart :: "label list \<Rightarrow> (cell list \<times> cell list) list \<Rightarrow> py_error + ui" where
  "l90_chart ls rs =
     (case select_column ''L90 A'' ls rs of
        Inl e \<Rightarrow> Inl e
      | Inr (Frame f) \<Rightarrow> Inl TypeErr
      | Inr (Series cs) \<Rightarrow>
          (case as_floats cs of
             Inl e \<Rightarrow> Inl e
           | Inr l90 \<Rightarrow>
               (case l90_cumulative l90 of
                  Inl e \<Rightarrow> Inl e
                | Inr l90_cumsum \<Rightarrow>
                    Inr (Plotly_chart (L90_distribution (sort_values (round0 l90)) l90_cumsum)))))"

subsection \<open>Time history\<close>

definition time_history :: "label list \<Rightarrow> (cell list \<times> cell list) list \<Rightarrow> py_error + ui" where
  "time_history ls rs =
     (case select_column ''Timestamp'' ls rs of
        Inl e \<Rightarrow> Inl e
      | Inr x \<Rightarrow>
          (case select_column ''Leq A'' ls rs of
             Inl e \<Rightarrow> Inl e
           | Inr leq \<Rightarrow>
               (case select_column ''L90 A'' ls rs of
                  Inl e \<Rightarrow> Inl e
                | Inr l90 \<Rightarrow>
                    (case select_column ''Lmax A'' ls rs of
                       Inl e \<Rightarrow> Inl e
                     | Inr lmax \<Rightarrow> Inr (Plotly_chart (Time_history x leq l90 lmax))))))"

subsection \<open>One position's view\<close>

text \<open>
  Lines 219 to 328, for the table \<open>df_used\<close> chosen above: the two charts, each
  guarded by the same test on the required columns, then the table. An exception raised
  while a chart is built is not caught: what was shown before it stays, and the run ends.
\<close>

definition required_cols :: "string set" where
  "required_cols = {''Leq A'', ''L90 A'', ''Lmax A''}"

definition has_required :: "label list \<Rightarrow> bool" where
  "has_required ls = (LStr ` required_cols \<subseteq> set ls)"

definition render_view :: "table \<Rightarrow> string \<Rightarrow> ui list \<times> py_error option" where
  "render_view df_used subheader =
     (let ls = plot_columns (columns df_used);
          first = (if has_required ls then time_history ls (rows df_used)
                   else Inr (Warning_missing required_cols subheader))
      in case first of
           Inl e \<Rightarrow> ([], Some e)
         | Inr ev1 \<Rightarrow>
             (let second = (if has_required ls then l90_chart ls (rows df_used)
                            else Inr (Warning_missing required_cols subheader))
              in case second of
                   Inl e \<Rightarrow> ([ev1], Some e)
                 | Inr ev2 \<Rightarrow> ([ev1, ev2, Subheader subheader, Dataframe df_used], None)))"

definition render_position ::
  "('log, 'survey) engine \<Rightarrow> view_state \<Rightarrow> string \<Rightarrow> (string \<times> 'log) list \<Rightarrow> upload
     \<Rightarrow> ui list \<times> py_error option" where
  "render_position E st period logs uf =
     (case map_of logs (file_name uf) of
        None \<Rightarrow> ([Error_not_found (file_name uf)], None)
      | Some lg \<Rightarrow>
          (case select_source E st period (file_name uf) lg of
             Inl ev \<Rightarrow> ([ev], None)
           | Inr (df_used, subheader) \<Rightarrow> render_view df_used subheader))"

text \<open>
  Line 190: \<^verbatim>\<open>for tab, uf in zip(ui_tabs[1:], files)\<close>. The k-th position tab is
  filled from the k-th uploaded file; the loop ends with the shorter list, and a tab it
  does not reach stays empty, as do the tabs after an uncaught exception.
\<close>

fun position_tabs ::
  "('log, 'survey) engine \<Rightarrow> view_state \<Rightarrow> string \<Rightarrow> (string \<times> 'log) list \<Rightarrow> string list
     \<Rightarrow> upload list \<Rightarrow> (string \<times> ui list) list \<times> py_error option" where
  "position_tabs E st period logs [] files = ([], None)"
| "position_tabs E st period logs (tab # tabs) [] = (map (\<lambda>t. (t, [])) (tab # tabs), None)"
| "position_tabs E st period logs (tab # tabs) (uf # files) =
     (case render_position E st period logs uf of
        (evs, Some e) \<Rightarrow> ((tab, evs) # map (\<lambda>t. (t, [])) tabs, Some e)
      | (evs, None) \<Rightarrow>
          (case position_tabs E st period logs tabs files of
             (rest, crash) \<Rightarrow> ((tab, evs) # rest, crash)))"

section \<open>One run of the script\<close>

text \<open>
  A run takes the session, the sidebar inputs and the disk and gives the page back. The
  session is written by the sidebar block only. The tab labels are those of
  \<^verbatim>\<open>st.tabs(["Summary"] + pos_list)\<close>, where \<open>pos_list\<close> is the key list of the
  log dictionary.
\<close>

record page =
  main_area :: "ui list"
  tab_labels :: "string list"
  summary_content :: "ui list"
  position_content :: "(string \<times> ui list) list"
  uncaught :: "py_error option"
  survey_input :: "string list"

record run_result =
  session :: view_state
  disk_after :: disk
  rendered :: "page option"

definition run_script ::
  "('log, 'survey) engine \<Rightarrow> upload list \<Rightarrow> int \<Rightarrow> string \<Rightarrow> bool \<Rightarrow> view_state \<Rightarrow> disk \<Rightarrow> run_result" where
  "run_script E files int_period period_select apply_agg_btn st d =
     (case sidebar files int_period period_select apply_agg_btn st of
        (st', None) \<Rightarrow> \<lparr> session = st', disk_after = d, rendered = None \<rparr>
      | (st', Some period) \<Rightarrow>
          (let ing = load_files E files d;
               logs = logs_of ing;
               sm = build_summary E logs;
               pos_list = map fst logs;
               ui_tabs = ''Summary'' # pos_list;
               (sum_evs, crash1) = summary_tab sm pos_list;
               (pos_tabs, crash2) =
                  (case crash1 of
                     Some e \<Rightarrow> (map (\<lambda>t. (t, [])) (tl ui_tabs), Some e)
                   | None \<Rightarrow> position_tabs E st' period logs (tl ui_tabs) files)
           in \<lparr> session = st', disk_after = disk_of ing,
                rendered = Some \<lparr> main_area = shown ing, tab_labels = ui_tabs,
                                  summary_content = sum_evs, position_content = pos_tabs,
                                  uncaught = crash2,
                                  survey_input = (if logs \<noteq> [] then map fst (survey_logs (survey_cap E) logs) else []) \<rparr> \<rparr>))"

section \<open>Auxiliary notions for the statements\<close>

text \<open>
  \<open>block_header\<close> is the header of a block before the position column is added: the
  index columns followed by the band labels, after the rename to \<^verbatim>\<open>Period\<close>.
  \<open>tagged_block\<close> is the block of position number \<open>j\<close>, and \<open>n_blocks\<close> the
  number of positions whose block fits into the table's width.
\<close>

definition block_header :: "table \<Rightarrow> label list \<Rightarrow> label list" where
  "block_header df bands =
     map (rename_label (py_or (last_index_name df) (LStr ''index'')) period_label)
       (index_column_names (df\<lparr> columns := Flat (map (\<lambda>b. LStr (py_str b)) bands) \<rparr>)
        @ map (\<lambda>b. LStr (py_str b)) bands)"

definition n_blocks :: "nat \<Rightarrow> nat \<Rightarrow> nat \<Rightarrow> nat" where
  "n_blocks width B P = (if B = 0 then P else min P (width div B))"

definition tagged_block :: "table \<Rightarrow> label list \<Rightarrow> nat \<times> string \<Rightarrow> table" where
  "tagged_block df bands = (\<lambda>(j, pos). \<lparr> index_names = [LNone],
           columns = Flat (if position_label \<in> set (block_header df bands) then block_header df bands
                           else position_label # block_header df bands),
           rows = range_rows (map (\<lambda>(ix, cs).
                    (if position_label \<in> set (block_header df bands) then [] else [CStr pos])
                    @ ix @ take (length bands) (drop (j * length bands) cs)) (rows df)) \<rparr>)"

text \<open>
  A file parses when the log constructor returns on the temporary file that holds the
  file's bytes. Every loop iteration of the ingestion starts from the same disk, so the
  temporary path is the fresh path of the disk the run starts with.
\<close>

definition parses :: "('log, 'survey) engine \<Rightarrow> disk \<Rightarrow> upload \<Rightarrow> bool" where
  "parses E d uf =
     (case log_ctor E ((fresh_path d, file_bytes uf) # d) (fresh_path d) of
        Inl err \<Rightarrow> False
      | Inr lg \<Rightarrow> True)"

section \<open>Example inputs\<close>

definition ex_cols :: "(label \<times> label) list" where
  "ex_cols = [(LStr ''P1'', LInt 63), (LStr ''P1'', LInt 125), (LStr ''P2'', LInt 63), (LStr ''P2'', LInt 125)]"

definition ex_spectra :: table where
  "ex_spectra = \<lparr> index_names = [LNone], columns = Multi ex_cols,
     rows = [([CStr ''Daytime''], [CNum 51, CNum 52, CNum 61, CNum 62]),
             ([CStr ''Night-time''], [CNum 41, CNum 42, CNum 43, CNum 44])] \<rparr>"

definition ex_site :: table where
  "ex_site = \<lparr> index_names = [LStr ''Site'', LStr ''Site''], columns = Multi ex_cols,
     rows = [([CStr ''Roof'', CStr ''Daytime''], [CNum 51, CNum 52, CNum 61, CNum 62]),
             ([CStr ''Roof'', CStr ''Night-time''], [CNum 41, CNum 42, CNum 43, CNum 44])] \<rparr>"

definition ex_indexed :: table where
  "ex_indexed = \<lparr> index_names = [LStr ''Position'', LStr ''Period''], columns = Multi ex_cols,
     rows = [([CStr ''Roof'', CStr ''Daytime''], [CNum 51, CNum 52, CNum 61, CNum 62]),
             ([CStr ''Roof'', CStr ''Night-time''], [CNum 41, CNum 42, CNum 43, CNum 44])] \<rparr>"

definition ex_flat :: table where
  "ex_flat = \<lparr> index_names = [LNone], columns = Flat [LInt 63, LInt 125],
     rows = [([CStr ''Daytime''], [CNum 51, CNum 52]),
             ([CStr ''Night-time''], [CNum 41, CNum 42])] \<rparr>"

definition ex_flat_once :: "string \<Rightarrow> table" where
  "ex_flat_once p = \<lparr> index_names = [LNone],
     columns = Flat [LStr ''Position'', LStr ''Period'', LInt 63, LInt 125],
     rows = [([CInt 0], [CStr p, CStr ''Daytime'', CNum 51, CNum 52]),
             ([CInt 1], [CStr p, CStr ''Night-time'', CNum 41, CNum 42])] \<rparr>"

definition ex_flat_twice :: "string \<Rightarrow> table" where
  "ex_flat_twice p = \<lparr> index_names = [LNone],
     columns = Flat [LStr ''Period'', LStr ''Position'', LStr ''Period'', LInt 63, LInt 125],
     rows = [([CInt 0], [CInt 0, CStr p, CStr ''Daytime'', CNum 51, CNum 52]),
             ([CInt 1], [CInt 1, CStr p, CStr ''Night-time'', CNum 41, CNum 42])] \<rparr>"

definition ex_master :: table where
  "ex_master = \<lparr> index_names = [LStr ''Time''],
     columns = Flat [LStr ''Leq A'', LStr ''L90 A'', LStr ''Lmax A''],
     rows = [([CStr ''2024-05-01 10:00''], [CNum 55, CNum (91 / 2), CNum 70]),
             ([CStr ''2024-05-01 10:15''], [CNum 54, CNum (93 / 2), CNum 68]),
             ([CStr ''2024-05-01 10:30''], [CNum 56, CNum 47, CNum 71]),
             ([CStr ''2024-05-01 10:45''], [CNum 53, CNaN, CNum 66])] \<rparr>"

definition ex_engine :: "(string, unit) engine" where
  "ex_engine = \<lparr>
     log_ctor = (\<lambda>d p. case map_of d p of
                     None \<Rightarrow> Inl ''no such file''
                   | Some b \<Rightarrow> if b = ''bad'' then Inl ''cannot parse'' else Inr b),
     as_interval = (\<lambda>lg t. if t = ''15min'' then Inr ex_master else Inl ''period too fine''),
     log_master = (\<lambda>lg. Inr ex_master),
     survey_cap = AddLog,
     new_survey = (\<lambda>logs. Inr ()),
     resi_summary = (\<lambda>sv. Inr None),
     typical_leq_spectra = None,
     lmax_spectra = None \<rparr>"

definition ex_good :: upload where
  "ex_good = \<lparr> file_name = ''good.csv'', file_bytes = ''ok'' \<rparr>"

definition ex_bad :: upload where
  "ex_bad = \<lparr> file_name = ''bad.csv'', file_bytes = ''bad'' \<rparr>"

definition ex_state :: view_state where
  "ex_state = \<lparr> apply_agg = False, period_last = ''15min'' \<rparr>"

definition ex_clash :: table where
  "ex_clash = \<lparr> index_names = [LStr ''Leq A''],
     columns = Flat [LStr ''Leq A'', LStr ''L90 A'', LStr ''Lmax A''],
     rows = [([CStr ''2024-05-01 10:00''], [CNum 55, CNum 45, CNum 70])] \<rparr>"

definition ex_no_lmax :: table where
  "ex_no_lmax = \<lparr> index_names = [LNone],
     columns = Flat [LStr ''Timestamp'', LStr ''Leq A'', LStr ''L90 A''],
     rows = [([CInt 0], [CStr ''2024-05-01 10:00'', CNum 55, CNum 45]),
             ([CInt 1], [CStr ''2024-05-01 10:15'', CNum 54, CNum 46])] \<rparr>"

definition ex_l90 :: "rat option list" where
  "ex_l90 = [Some (91 / 2), Some (93 / 2), Some 47, None, Some (89 / 2)]"

definition ex_all_nan :: table where
  "ex_all_nan = \<lparr> index_names = [LNone],
     columns = Flat [LStr ''Timestamp'', LStr ''Leq A'', LStr ''L90 A'', LStr ''Lmax A''],
     rows = [([CInt 0], [CStr ''2024-05-01 10:00'', CNum 55, CNaN, CNum 70]),
             ([CInt 1], [CStr ''2024-05-01 10:15'', CNum 54, CNaN, CNum 68])] \<rparr>"

definition ex_blank_index :: table where
  "ex_blank_index = \<lparr> index_names = [LStr ''''], columns = Flat [LInt 63, LInt 125],
     rows = [([CStr ''Daytime''], [CNum 51, CNum 52])] \<rparr>"

definition ex_two_level :: table where
  "ex_two_level = \<lparr> index_names = [LNone],
     columns = Multi [(LStr ''Timestamp'', LStr ''''), (LStr ''Leq'', LStr [CHR ''A'', CHR 0x1F]),
                      (LStr ''L90'', LStr [CHR ''A'', CHR 0xA0]), (LStr ''Lmax'', LStr ''A'')],
     rows = [([CInt 0], [CStr ''2024-05-01 10:00'', CNum 55, CNum 45, CNum 70])] \<rparr>"

section \<open>Properties of the table operations\<close>

lemma insert_labels_flat:
  "distinct ns \<Longrightarrow> set ns \<inter> set cs = {} \<Longrightarrow> insert_labels ns (Flat cs) = Inr (Flat (ns @ cs))"
  by (induction ns) auto

lemma length_band_labels: "length (band_labels cs) = length (remdups (map snd cs))"
proof -
  have "length (remdups (map snd cs)) \<le> length (map snd cs)" by (rule length_remdups_leq)
  then show ?thesis by (simp add: band_labels_def)
qed

lemma range_rows_map:
  "map (\<lambda>(ix, cs). (ix, f cs)) (range_rows rs) = range_rows (map f rs)"
  by (simp add: range_rows_def zip_map2 split_def)

lemma length_range_rows: "length (range_rows rs) = length rs"
  by (simp add: range_rows_def)

lemma map_snd_range_rows: "map snd (range_rows rs) = rs"
proof -
  have "snd \<circ> (\<lambda>p. ([CInt (int (fst p))], snd p)) = (snd :: nat \<times> cell list \<Rightarrow> cell list)"
    by (rule ext) simp
  then show ?thesis
    by (simp add: range_rows_def split_def)
qed

lemma make_block_eq:
  assumes w: "(i + 1) * length bands \<le> ncols (columns df)"
    and d: "distinct (index_column_names (df\<lparr> columns := Flat (map (\<lambda>b. LStr (py_str b)) bands) \<rparr>))"
    and c: "set (index_column_names (df\<lparr> columns := Flat (map (\<lambda>b. LStr (py_str b)) bands) \<rparr>))
             \<inter> set (map (\<lambda>b. LStr (py_str b)) bands) = {}"
  shows "make_block df bands i pos =
     Inr \<lparr> index_names = [LNone],
           columns = Flat (if position_label \<in> set (block_header df bands) then block_header df bands
                           else position_label # block_header df bands),
           rows = range_rows (map (\<lambda>(ix, cs).
                    (if position_label \<in> set (block_header df bands) then [] else [CStr pos])
                    @ ix @ take (length bands) (drop (i * length bands) cs)) (rows df)) \<rparr>"
proof -
  define bs where "bs = map (\<lambda>b. LStr (py_str b)) bands"
  define sl where "sl = iloc_columns (i * length bands) ((i + 1) * length bands) df"
  define key where "key = py_or (last_index_name df) (LStr ''index'')"
  define ixn where "ixn = index_column_names (df\<lparr> columns := Flat bs \<rparr>)"
  have len: "ncols (columns sl) = length bands"
    using w by (cases "columns df") (auto simp: sl_def iloc_columns_def slice_def)
  have sc: "set_columns bs sl = Inr (sl\<lparr> columns := Flat bs \<rparr>)"
    using len by (simp add: set_columns_def bs_def)
  have icn: "index_column_names (sl\<lparr> columns := Flat bs \<rparr>) = ixn"
    by (simp add: index_column_names_def sl_def iloc_columns_def ixn_def)
  have ri: "reset_index (sl\<lparr> columns := Flat bs \<rparr>) =
        Inr \<lparr> index_names = [LNone], columns = Flat (ixn @ bs),
              rows = range_rows (map (\<lambda>(ix, cs). ix @ cs) (rows sl)) \<rparr>"
  proof -
    have "distinct ixn" "set ixn \<inter> set bs = {}"
      using d c by (simp_all add: ixn_def bs_def)
    then show ?thesis
      by (simp add: reset_index_def icn insert_labels_flat)
  qed
  have hdr: "block_header df bands = map (rename_label key period_label) (ixn @ bs)"
    by (simp add: block_header_def key_def ixn_def bs_def)
  have rs: "map (\<lambda>(ix, cs). ix @ cs) (rows sl)
          = map (\<lambda>(ix, cs). ix @ take (length bands) (drop (i * length bands) cs)) (rows df)"
    by (simp add: sl_def iloc_columns_def slice_def split_def)
  have mb: "make_block df bands i pos =
      (let sub2 = rename_columns key period_label
                    \<lparr> index_names = [LNone], columns = Flat (ixn @ bs),
                      rows = range_rows (map (\<lambda>(ix, cs). ix @ cs) (rows sl)) \<rparr>
       in if \<not> has_column position_label (columns sub2)
          then insert_first position_label (CStr pos) sub2 else Inr sub2)"
    unfolding make_block_def Let_def
    using sc ri by (simp add: bs_def sl_def key_def)
  show ?thesis
  proof (cases "position_label \<in> set (block_header df bands)")
    case True
    then show ?thesis
      unfolding mb by (simp add: rename_columns_def hdr rs)
  next
    case False
    then show ?thesis
      unfolding mb
      by (simp add: rename_columns_def hdr rs insert_first_def range_rows_map)
        (simp add: comp_def split_def)
  qed
qed

lemma n_blocks_stop:
  assumes "(i + 1) * B > W"
  shows "n_blocks W B P \<le> i"
proof -
  from assms have B: "B > 0" by (cases B) auto
  have "W div B < i + 1"
    using assms B by (simp add: div_less_iff_less_mult)
  then show ?thesis using B by (simp add: n_blocks_def)
qed

lemma n_blocks_go:
  assumes "(i + 1) * B \<le> W"
  shows "i < n_blocks W B (i + Suc k)"
proof (cases "B = 0")
  case True
  then show ?thesis by (simp add: n_blocks_def)
next
  case False
  then have "i + 1 \<le> W div B"
    using assms by (simp add: less_eq_div_iff_mult_less_eq)
  then show ?thesis using False by (simp add: n_blocks_def)
qed

lemma collect_blocks_eq:
  assumes d: "distinct (index_column_names (df\<lparr> columns := Flat (map (\<lambda>b. LStr (py_str b)) bands) \<rparr>))"
    and c: "set (index_column_names (df\<lparr> columns := Flat (map (\<lambda>b. LStr (py_str b)) bands) \<rparr>))
             \<inter> set (map (\<lambda>b. LStr (py_str b)) bands) = {}"
  shows "collect_blocks df bands i ps =
     Inr (map (tagged_block df bands)
          (zip [i..<n_blocks (ncols (columns df)) (length bands) (i + length ps)] ps))"
proof (induction ps arbitrary: i)
  case Nil
  then show ?case by simp
next
  case (Cons p ps)
  let ?N = "n_blocks (ncols (columns df)) (length bands) (i + length (p # ps))"
  show ?case
  proof (cases "(i + 1) * length bands > ncols (columns df)")
    case True
    then have "?N \<le> i" by (rule n_blocks_stop)
    then show ?thesis using True by simp
  next
    case False
    then have w: "(i + 1) * length bands \<le> ncols (columns df)" by simp
    then have "i < ?N" using n_blocks_go [of i "length bands" "ncols (columns df)" "length ps"] by simp
    then have up: "[i..<?N] = i # [i + 1..<?N]" by (simp add: upt_conv_Cons)
    have N': "n_blocks (ncols (columns df)) (length bands) (i + 1 + length ps) = ?N" by simp
    have mb: "make_block df bands i p = Inr (tagged_block df bands (i, p))"
      using make_block_eq [OF w d c] by (simp add: tagged_block_def)
    have rest: "collect_blocks df bands (i + 1) ps =
       Inr (map (tagged_block df bands) (zip [i + 1..<?N] ps))"
      using Cons.IH [of "i + 1"] N' by simp
    have "collect_blocks df bands i (p # ps) =
       Inr (tagged_block df bands (i, p) # map (tagged_block df bands) (zip [i + 1..<?N] ps))"
      using w mb rest by simp
    then show ?thesis using up by simp
  qed
qed

lemma pd_concat_tagged:
  assumes "zs \<noteq> []"
  shows "pd_concat (map (tagged_block df bands) zs) =
     Inr \<lparr> index_names = [LNone],
           columns = Flat (if position_label \<in> set (block_header df bands) then block_header df bands
                           else position_label # block_header df bands),
           rows = range_rows (concat (map (\<lambda>(j, pos). map (\<lambda>(ix, cs).
                    (if position_label \<in> set (block_header df bands) then [] else [CStr pos])
                    @ ix @ take (length bands) (drop (j * length bands) cs)) (rows df)) zs)) \<rparr>"
proof -
  obtain z zs' where zs: "zs = z # zs'" using assms by (cases zs) auto
  have cols: "\<And>y. columns (tagged_block df bands y) =
      Flat (if position_label \<in> set (block_header df bands) then block_header df bands
            else position_label # block_header df bands)"
    by (simp add: tagged_block_def split_def)
  have rws: "\<And>y. map snd (rows (tagged_block df bands y)) =
      (case y of (j, pos) \<Rightarrow> map (\<lambda>(ix, cs).
                    (if position_label \<in> set (block_header df bands) then [] else [CStr pos])
                    @ ix @ take (length bands) (drop (j * length bands) cs)) (rows df))"
    by (simp add: tagged_block_def split_def map_snd_range_rows)
  have "map snd (concat (map rows (map (tagged_block df bands) zs))) =
        concat (map (\<lambda>y. map snd (rows (tagged_block df bands y))) zs)"
    by (simp add: map_concat comp_def)
  also have "\<dots> = concat (map (\<lambda>(j, pos). map (\<lambda>(ix, cs).
                    (if position_label \<in> set (block_header df bands) then [] else [CStr pos])
                    @ ix @ take (length bands) (drop (j * length bands) cs)) (rows df)) zs)"
    by (simp add: rws split_def)
  finally have r: "map snd (concat (map rows (map (tagged_block df bands) zs))) =
      concat (map (\<lambda>(j, pos). map (\<lambda>(ix, cs).
                    (if position_label \<in> set (block_header df bands) then [] else [CStr pos])
                    @ ix @ take (length bands) (drop (j * length bands) cs)) (rows df)) zs)" .
  have "pd_concat (map (tagged_block df bands) zs) =
     Inr \<lparr> index_names = [LNone], columns = columns (tagged_block df bands z),
           rows = range_rows (map snd (concat (map rows (map (tagged_block df bands) zs)))) \<rparr>"
    unfolding pd_concat_def zs by (simp add: cols)
  then show ?thesis by (simp only: r cols)
qed

section \<open>Spectra reshaper: two-level tables\<close>

lemma blocks_when_reset_succeeds:
  assumes "columns df = Multi cs"
    and "B = card (snd ` set cs)"
    and "bands = map (\<lambda>b. LStr (py_str b)) (take B (map snd cs))"
    and "ixn = index_column_names (df\<lparr> columns := Flat bands \<rparr>)"
    and "distinct ixn" and "set ixn \<inter> set bands = {}"
    and "hdr = map (rename_label (py_or (last_index_name df) (LStr ''index'')) (LStr ''Period'')) (ixn @ bands)"
    and "n = (if B = 0 then length pos_names else min (length pos_names) (length cs div B))"
    and "0 < n"
  shows "spectra_to_rows (Some df) pos_names =
       Inr (Some \<lparr> index_names = [LNone],
              columns = Flat (if LStr ''Position'' \<in> set hdr then hdr else LStr ''Position'' # hdr),
              rows = range_rows (concat (map (\<lambda>(i, pos). map (\<lambda>(ix, cells).
                         (if LStr ''Position'' \<in> set hdr then [] else [CStr pos])
                         @ ix @ take B (drop (i * B) cells)) (rows df))
                       (zip [0..<n] pos_names))) \<rparr>)
     \<and> (length cs = length pos_names * B \<longrightarrow> n = length pos_names)
     \<and> (length cs < length pos_names * B \<longrightarrow> n = length cs div B \<and> n < length pos_names)"
proof -
  have B: "length (band_labels cs) = B"
    using assms(2) by (simp add: length_band_labels length_remdups_card_conv)
  have bl: "band_labels cs = take B (map snd cs)"
    using assms(2) by (simp add: band_labels_def length_remdups_card_conv)
  have bh: "block_header df (band_labels cs) = hdr"
    using assms(3,4,7) by (simp add: block_header_def bl period_label_def)
  have n: "n_blocks (ncols (columns df)) (length (band_labels cs)) (0 + length pos_names) = n"
    using assms(1,8) by (simp add: n_blocks_def B)
  have d: "distinct (index_column_names (df\<lparr> columns := Flat (map (\<lambda>b. LStr (py_str b)) (band_labels cs)) \<rparr>))"
    using assms(3,4,5) by (simp add: bl)
  have c: "set (index_column_names (df\<lparr> columns := Flat (map (\<lambda>b. LStr (py_str b)) (band_labels cs)) \<rparr>))
             \<inter> set (map (\<lambda>b. LStr (py_str b)) (band_labels cs)) = {}"
    using assms(3,4,6) by (simp add: bl)
  have cb: "collect_blocks df (band_labels cs) 0 pos_names =
      Inr (map (tagged_block df (band_labels cs)) (zip [0..<n] pos_names))"
    using collect_blocks_eq [OF d c, of 0 pos_names] n by simp
  have "n \<le> length pos_names" using assms(8) by (simp split: if_splits)
  then have ne: "zip [0..<n] pos_names \<noteq> []"
    using assms(9) by (cases pos_names) (auto simp: upt_conv_Cons)
  have "spectra_to_rows (Some df) pos_names =
      map_sum id Some (pd_concat (map (tagged_block df (band_labels cs)) (zip [0..<n] pos_names)))"
    using assms(1) cb by (simp add: spectra_to_rows_def multi_branch_def)
  then have main: "spectra_to_rows (Some df) pos_names =
       Inr (Some \<lparr> index_names = [LNone],
              columns = Flat (if LStr ''Position'' \<in> set hdr then hdr else LStr ''Position'' # hdr),
              rows = range_rows (concat (map (\<lambda>(i, pos). map (\<lambda>(ix, cells).
                         (if LStr ''Position'' \<in> set hdr then [] else [CStr pos])
                         @ ix @ take B (drop (i * B) cells)) (rows df))
                       (zip [0..<n] pos_names))) \<rparr>)"
    by (simp add: pd_concat_tagged [OF ne] bh B position_label_def)
  have e1: "length cs = length pos_names * B \<longrightarrow> n = length pos_names"
    using assms(8) by auto
  have e2: "length cs < length pos_names * B \<longrightarrow> n = length cs div B \<and> n < length pos_names"
  proof
    assume a: "length cs < length pos_names * B"
    then have "B > 0" by (cases B) auto
    moreover have "length cs div B < length pos_names"
      using a \<open>B > 0\<close> by (simp add: div_less_iff_less_mult)
    ultimately show "n = length cs div B \<and> n < length pos_names"
      using assms(8) by simp
  qed
  show ?thesis using main e1 e2 by blast
qed

lemma str_nat_63: "str_nat 63 = ''63''" by code_simp

lemma str_nat_125: "str_nat 125 = ''125''" by code_simp

lemma insert_labels_flat_cases:
  "insert_labels ns (Flat cs) = Inr c \<Longrightarrow> c = Flat (ns @ cs)"
  by (induction ns arbitrary: c) (auto split: sum.splits if_splits)

lemma insert_labels_flat_ok:
  "insert_labels ns (Flat cs) = Inr c \<Longrightarrow> distinct ns \<and> set ns \<inter> set cs = {}"
proof (induction ns arbitrary: c)
  case Nil
  then show ?case by simp
next
  case (Cons n ns)
  from Cons.prems obtain c' where c': "insert_labels ns (Flat cs) = Inr c'"
    and il: "insert_label n c' = Inr c"
    by (auto split: sum.splits)
  have cf: "c' = Flat (ns @ cs)" using c' by (rule insert_labels_flat_cases)
  have "n \<notin> set (ns @ cs)" using il cf by (auto split: if_splits)
  then show ?case using Cons.IH [OF c'] by auto
qed

lemma insert_labels_error:
  "insert_labels ns c = Inl e \<Longrightarrow> \<exists>l. e = CannotInsert l"
proof (induction ns arbitrary: e)
  case Nil
  then show ?case by simp
next
  case (Cons n ns)
  show ?case
  proof (cases "insert_labels ns c")
    case (Inl e')
    then show ?thesis using Cons by simp
  next
    case (Inr c')
    then have "insert_label n c' = Inl e" using Cons.prems by simp
    then show ?thesis by (cases c') (auto split: if_splits)
  qed
qed

lemma make_block_fails:
  assumes w: "(i + 1) * length bands \<le> ncols (columns df)"
    and clash: "\<not> (distinct (index_column_names (df\<lparr> columns := Flat (map (\<lambda>b. LStr (py_str b)) bands) \<rparr>))
             \<and> set (index_column_names (df\<lparr> columns := Flat (map (\<lambda>b. LStr (py_str b)) bands) \<rparr>))
                 \<inter> set (map (\<lambda>b. LStr (py_str b)) bands) = {})"
  shows "\<exists>l. make_block df bands i pos = Inl (CannotInsert l)"
proof -
  define bs where "bs = map (\<lambda>b. LStr (py_str b)) bands"
  define sl where "sl = iloc_columns (i * length bands) ((i + 1) * length bands) df"
  define ixn where "ixn = index_column_names (df\<lparr> columns := Flat bs \<rparr>)"
  have len: "ncols (columns sl) = length bands"
    using w by (cases "columns df") (auto simp: sl_def iloc_columns_def slice_def)
  have sc: "set_columns bs sl = Inr (sl\<lparr> columns := Flat bs \<rparr>)"
    using len by (simp add: set_columns_def bs_def)
  have icn: "index_column_names (sl\<lparr> columns := Flat bs \<rparr>) = ixn"
    by (simp add: index_column_names_def sl_def iloc_columns_def ixn_def)
  have bad: "\<not> (distinct ixn \<and> set ixn \<inter> set bs = {})"
    using clash by (simp add: ixn_def bs_def)
  obtain e where e: "insert_labels ixn (Flat bs) = Inl e"
    using bad insert_labels_flat_ok [of ixn bs] by (cases "insert_labels ixn (Flat bs)") auto
  then obtain l where l: "e = CannotInsert l" using insert_labels_error by blast
  have ri: "reset_index (sl\<lparr> columns := Flat bs \<rparr>) = Inl (CannotInsert l)"
    using e l by (simp add: reset_index_def icn)
  have "make_block df bands i pos = Inl (CannotInsert l)"
    unfolding make_block_def Let_def
    using sc ri by (simp add: bs_def sl_def)
  then show ?thesis by blast
qed

text \<open>
  Claim C1, as amended. Let a table have a two-level header with \<open>B\<close> distinct inner
  labels. Let \<open>n\<close> be the number of positions whose block of \<open>B\<close> columns fits
  into the table's width, and let \<open>n\<close> be positive. The index reset of a block turns
  the index levels into columns, and it succeeds exactly when their names are pairwise
  distinct and none of them is a band label. If it succeeds, \<open>spectra_to_rows\<close>
  returns the blocks of the first \<open>n\<close> positions, in the order of the position list
  and with the rows of each block in the table's row order, under a fresh range index.
  The block of position number \<open>i\<close> holds the columns \<open>i * B\<close> to
  \<open>(i + 1) * B - 1\<close>, named by \<open>str\<close> of the first \<open>B\<close> inner labels; before
  them come the index levels as columns, the one named like the last level
  (\<^verbatim>\<open>index\<close> when that name is empty) renamed to \<^verbatim>\<open>Period\<close>; and a leading
  \<^verbatim>\<open>Position\<close> column holding the position's name is added, unless a column of that
  label is already present, in which case the rows are not tagged. If the index reset
  does not succeed, the call raises ValueError (cannot insert, already exists) and
  returns nothing. With exactly \<open>P * B\<close> columns every one of the \<open>P\<close> positions
  has its block; with fewer, only the first \<open>length cs div B\<close> positions have one and
  the others are absent.
\<close>

theorem spectra_to_rows_blocks:
  assumes "columns df = Multi cs"
    and "B = card (snd ` set cs)"
    and "bands = map (\<lambda>b. LStr (py_str b)) (take B (map snd cs))"
    and "ixn = index_column_names (df\<lparr> columns := Flat bands \<rparr>)"
    and "hdr = map (rename_label (py_or (last_index_name df) (LStr ''index'')) (LStr ''Period'')) (ixn @ bands)"
    and "n = (if B = 0 then length pos_names else min (length pos_names) (length cs div B))"
    and "0 < n"
  shows "(distinct ixn \<and> set ixn \<inter> set bands = {} \<longrightarrow>
          spectra_to_rows (Some df) pos_names =
            Inr (Some \<lparr> index_names = [LNone],
              columns = Flat (if LStr ''Position'' \<in> set hdr then hdr else LStr ''Position'' # hdr),
              rows = range_rows (concat (map (\<lambda>(i, pos). map (\<lambda>(ix, cells).
                         (if LStr ''Position'' \<in> set hdr then [] else [CStr pos])
                         @ ix @ take B (drop (i * B) cells)) (rows df))
                       (zip [0..<n] pos_names))) \<rparr>))
     \<and> (\<not> (distinct ixn \<and> set ixn \<inter> set bands = {}) \<longrightarrow>
          (\<exists>l. spectra_to_rows (Some df) pos_names = Inl (CannotInsert l)))
     \<and> (length cs = length pos_names * B \<longrightarrow> n = length pos_names)
     \<and> (length cs < length pos_names * B \<longrightarrow> n = length cs div B \<and> n < length pos_names)"
proof -
  have good: "distinct ixn \<and> set ixn \<inter> set bands = {} \<longrightarrow>
          spectra_to_rows (Some df) pos_names =
            Inr (Some \<lparr> index_names = [LNone],
              columns = Flat (if LStr ''Position'' \<in> set hdr then hdr else LStr ''Position'' # hdr),
              rows = range_rows (concat (map (\<lambda>(i, pos). map (\<lambda>(ix, cells).
                         (if LStr ''Position'' \<in> set hdr then [] else [CStr pos])
                         @ ix @ take B (drop (i * B) cells)) (rows df))
                       (zip [0..<n] pos_names))) \<rparr>)"
    using blocks_when_reset_succeeds [OF assms(1,2,3,4) _ _ assms(5,6,7)] by blast
  have B: "length (band_labels cs) = B"
    using assms(2) by (simp add: length_band_labels length_remdups_card_conv)
  have bl: "band_labels cs = take B (map snd cs)"
    using assms(2) by (simp add: band_labels_def length_remdups_card_conv)
  have bad: "\<not> (distinct ixn \<and> set ixn \<inter> set bands = {}) \<longrightarrow>
          (\<exists>l. spectra_to_rows (Some df) pos_names = Inl (CannotInsert l))"
  proof
    assume clash: "\<not> (distinct ixn \<and> set ixn \<inter> set bands = {})"
    obtain p ps where ps: "pos_names = p # ps"
      using assms(6,7) by (cases pos_names) (auto split: if_splits)
    have fits: "(0 + 1) * length (band_labels cs) \<le> ncols (columns df)"
    proof (cases "B = 0")
      case True
      then show ?thesis using B by simp
    next
      case False
      then have "0 < length cs div B" using assms(6,7) by simp
      then have "B \<le> length cs" using False by (simp add: div_greater_zero_iff)
      then show ?thesis using B assms(1) by simp
    qed
    have clash': "\<not> (distinct (index_column_names (df\<lparr> columns := Flat (map (\<lambda>b. LStr (py_str b)) (band_labels cs)) \<rparr>))
             \<and> set (index_column_names (df\<lparr> columns := Flat (map (\<lambda>b. LStr (py_str b)) (band_labels cs)) \<rparr>))
                 \<inter> set (map (\<lambda>b. LStr (py_str b)) (band_labels cs)) = {})"
      using clash assms(3,4) by (simp add: bl)
    obtain l where l: "make_block df (band_labels cs) 0 p = Inl (CannotInsert l)"
      using make_block_fails [OF fits clash'] by blast
    have "collect_blocks df (band_labels cs) 0 pos_names = Inl (CannotInsert l)"
      using fits l ps by simp
    then have "spectra_to_rows (Some df) pos_names = Inl (CannotInsert l)"
      using assms(1) by (simp add: spectra_to_rows_def multi_branch_def)
    then show "\<exists>l. spectra_to_rows (Some df) pos_names = Inl (CannotInsert l)" by blast
  qed
  have e1: "length cs = length pos_names * B \<longrightarrow> n = length pos_names"
    using assms(6) by auto
  have e2: "length cs < length pos_names * B \<longrightarrow> n = length cs div B \<and> n < length pos_names"
  proof
    assume a: "length cs < length pos_names * B"
    then have "B > 0" by (cases B) auto
    moreover have "length cs div B < length pos_names"
      using a \<open>B > 0\<close> by (simp add: div_less_iff_less_mult)
    ultimately show "n = length cs div B \<and> n < length pos_names"
      using assms(6) by simp
  qed
  show ?thesis using good bad e1 e2 by blast
qed

text \<open>The theorem at a table of two positions and two bands, with two and with three
  position names, and at the same table with two index levels of one name.\<close>

theorem spectra_to_rows_blocks_witness:
  "spectra_to_rows (Some ex_spectra) [''a.csv'', ''b.csv''] =
     Inr (Some \<lparr> index_names = [LNone],
       columns = Flat [LStr ''Position'', LStr ''Period'', LStr ''63'', LStr ''125''],
       rows = [([CInt 0], [CStr ''a.csv'', CStr ''Daytime'', CNum 51, CNum 52]),
               ([CInt 1], [CStr ''a.csv'', CStr ''Night-time'', CNum 41, CNum 42]),
               ([CInt 2], [CStr ''b.csv'', CStr ''Daytime'', CNum 61, CNum 62]),
               ([CInt 3], [CStr ''b.csv'', CStr ''Night-time'', CNum 43, CNum 44])] \<rparr>)
   \<and> spectra_to_rows (Some ex_spectra) [''a.csv'', ''b.csv'', ''c.csv''] =
     Inr (Some \<lparr> index_names = [LNone],
       columns = Flat [LStr ''Position'', LStr ''Period'', LStr ''63'', LStr ''125''],
       rows = [([CInt 0], [CStr ''a.csv'', CStr ''Daytime'', CNum 51, CNum 52]),
               ([CInt 1], [CStr ''a.csv'', CStr ''Night-time'', CNum 41, CNum 42]),
               ([CInt 2], [CStr ''b.csv'', CStr ''Daytime'', CNum 61, CNum 62]),
               ([CInt 3], [CStr ''b.csv'', CStr ''Night-time'', CNum 43, CNum 44])] \<rparr>)
   \<and> spectra_to_rows (Some ex_site) [''a.csv'', ''b.csv''] = Inl (CannotInsert (LStr ''Site''))"
proof -
  let ?bands = "[LStr ''63'', LStr ''125'']"
  let ?hdr = "[LStr ''Period'', LStr ''63'', LStr ''125'']"
  let ?shdr = "[LStr ''Period'', LStr ''Period'', LStr ''63'', LStr ''125'']"
  have h1: "columns ex_spectra = Multi ex_cols" by (simp add: ex_spectra_def)
  have s1: "columns ex_site = Multi ex_cols" by (simp add: ex_site_def)
  have "card (snd ` set ex_cols) = length (remdups (map snd ex_cols))"
    by (simp only: card_set flip: set_map)
  then have h2: "(2::nat) = card (snd ` set ex_cols)" by (simp add: ex_cols_def)
  have h3: "?bands = map (\<lambda>b. LStr (py_str b)) (take 2 (map snd ex_cols))"
    by (simp add: ex_cols_def str_int_def str_nat_63 str_nat_125)
  have h4: "[LStr ''index''] = index_column_names (ex_spectra\<lparr> columns := Flat ?bands \<rparr>)"
    by (simp add: index_column_names_def ex_spectra_def)
  have s4: "[LStr ''Site'', LStr ''Site''] = index_column_names (ex_site\<lparr> columns := Flat ?bands \<rparr>)"
    by (simp add: index_column_names_def ex_site_def upt_conv_Cons)
  have h5: "distinct [LStr ''index''] \<and> set [LStr ''index''] \<inter> set ?bands = {}" by simp
  have s5: "\<not> (distinct [LStr ''Site'', LStr ''Site''] \<and> set [LStr ''Site'', LStr ''Site''] \<inter> set ?bands = {})"
    by simp
  have h7: "?hdr = map (rename_label (py_or (last_index_name ex_spectra) (LStr ''index'')) (LStr ''Period''))
                ([LStr ''index''] @ ?bands)"
    by (simp add: rename_label_def py_or_def last_index_name_def ex_spectra_def)
  have s7: "?shdr = map (rename_label (py_or (last_index_name ex_site) (LStr ''index'')) (LStr ''Period''))
                ([LStr ''Site'', LStr ''Site''] @ ?bands)"
    by (simp add: rename_label_def py_or_def last_index_name_def ex_site_def)
  have n2: "(2::nat) = (if (2::nat) = 0 then length [''a.csv'', ''b.csv'']
                        else min (length [''a.csv'', ''b.csv'']) (length ex_cols div 2))"
    by (simp add: ex_cols_def)
  have n3: "(2::nat) = (if (2::nat) = 0 then length [''a.csv'', ''b.csv'', ''c.csv'']
                        else min (length [''a.csv'', ''b.csv'', ''c.csv'']) (length ex_cols div 2))"
    by (simp add: ex_cols_def)
  have pos: "(0::nat) < 2" by simp
  have up: "[0..<2] = [0, Suc 0]" by (simp add: upt_conv_Cons)
  have site: "spectra_to_rows (Some ex_site) [''a.csv'', ''b.csv''] = Inl (CannotInsert (LStr ''Site''))"
    by (simp add: spectra_to_rows_def ex_site_def ex_cols_def multi_branch_def band_labels_def
        make_block_def set_columns_def iloc_columns_def slice_def reset_index_def
        index_column_names_def str_int_def str_nat_63 str_nat_125 upt_conv_Cons)
  show ?thesis
    using spectra_to_rows_blocks [OF h1 h2 h3 h4 h7 n2 pos]
          spectra_to_rows_blocks [OF h1 h2 h3 h4 h7 n3 pos]
          spectra_to_rows_blocks [OF s1 h2 h3 s4 s7 n2 pos]
          h5 s5 site
    by (simp add: up ex_spectra_def range_rows_def)
qed

text \<open>
  Claim C1 as stated fails on a table whose row index has the levels \<^verbatim>\<open>Position\<close>
  and \<^verbatim>\<open>Period\<close>: it has exactly \<open>P * B = 2 * 2\<close> columns, the index reset
  already yields a \<^verbatim>\<open>Position\<close> column, the guard of line 127 skips the insertion,
  and no row is tagged with \<^verbatim>\<open>a.csv\<close> or \<^verbatim>\<open>b.csv\<close>.
\<close>

theorem spectra_to_rows_untagged_counterexample:
  "spectra_to_rows (Some ex_indexed) [''a.csv'', ''b.csv''] =
     Inr (Some \<lparr> index_names = [LNone],
       columns = Flat [LStr ''Position'', LStr ''Period'', LStr ''63'', LStr ''125''],
       rows = [([CInt 0], [CStr ''Roof'', CStr ''Daytime'', CNum 51, CNum 52]),
               ([CInt 1], [CStr ''Roof'', CStr ''Night-time'', CNum 41, CNum 42]),
               ([CInt 2], [CStr ''Roof'', CStr ''Daytime'', CNum 61, CNum 62]),
               ([CInt 3], [CStr ''Roof'', CStr ''Night-time'', CNum 43, CNum 44])] \<rparr>)"
  by (simp add: spectra_to_rows_def ex_indexed_def ex_cols_def multi_branch_def band_labels_def
      make_block_def set_columns_def iloc_columns_def slice_def reset_index_def
      index_column_names_def rename_columns_def rename_label_def py_or_def last_index_name_def
      period_label_def position_label_def insert_first_def pd_concat_def range_rows_def
      str_int_def str_nat_63 str_nat_125 upt_conv_Cons)

section \<open>Spectra reshaper: flat tables\<close>

lemma flat_branch_shape:
  assumes "columns df = Flat cs" and "flat_branch df pos = Inr t"
  shows "index_names t = [LNone] \<and> position_label \<in> set (table_labels (columns t))
       \<and> (\<exists>ls. columns t = Flat ls) \<and> (\<exists>R. rows t = range_rows R)"
proof -
  obtain c where c: "insert_labels (index_column_names df) (Flat cs) = Inr c"
    using assms by (auto simp: flat_branch_def reset_index_def split: sum.splits)
  then have cf: "c = Flat (index_column_names df @ cs)" by (rule insert_labels_flat_cases)
  show ?thesis
    using assms c cf
    by (auto simp: flat_branch_def reset_index_def rename_columns_def insert_first_def Let_def
        range_rows_map split: if_splits)
qed

lemma nth_range_rows: "i < length rs \<Longrightarrow> range_rows rs ! i = ([CInt (int i)], rs ! i)"
  by (simp add: range_rows_def)

lemma range_rows_twice:
  "range_rows (map (\<lambda>(ix, cs). ix @ cs) (range_rows R)) = map (\<lambda>(ix, cs). (ix, ix @ cs)) (range_rows R)"
  by (rule nth_equalityI) (simp_all add: length_range_rows nth_range_rows)

text \<open>
  Claim C4, as amended. Reshaping a flat table is not idempotent. Let the first
  application return the table \<open>t1\<close> with the labels \<open>cs1\<close>. The second application
  never returns \<open>t1\<close>: it turns the range index of \<open>t1\<close> into one more leading
  column, which holds the row numbers. That column is labelled \<^verbatim>\<open>Period\<close> when
  \<open>t1\<close> has no column \<^verbatim>\<open>index\<close>; otherwise it is labelled \<^verbatim>\<open>level_0\<close> and the
  \<^verbatim>\<open>index\<close> column of \<open>t1\<close> is renamed \<^verbatim>\<open>Period\<close>, or the call raises ValueError
  when \<open>t1\<close> has both labels. The rows of \<open>t1\<close> are kept in their order with all
  their cells, and no second \<^verbatim>\<open>Position\<close> column is added.
\<close>

theorem flat_reshape_twice:
  assumes "columns df = Flat cs"
    and "spectra_to_rows (Some df) pos_names = Inr (Some t1)"
    and "cs1 = table_labels (columns t1)"
    and "nm = (if LStr ''index'' \<in> set cs1 then LStr ''level_0'' else LStr ''index'')"
  shows "spectra_to_rows (Some t1) pos_names =
           (if nm \<in> set cs1 then Inl (CannotInsert nm)
            else Inr (Some (t1\<lparr> columns := Flat (map (rename_label (LStr ''index'') (LStr ''Period'')) (nm # cs1)),
                                rows := map (\<lambda>(ix, cells). (ix, ix @ cells)) (rows t1) \<rparr>)))
       \<and> spectra_to_rows (Some t1) pos_names \<noteq> Inr (Some t1)"
proof -
  have fb: "flat_branch df pos_names = Inr t1"
    using assms(1,2) by (auto simp: spectra_to_rows_def map_sum_def split: sum.splits)
  from flat_branch_shape [OF assms(1) fb]
  obtain ls R where sh: "index_names t1 = [LNone]" "position_label \<in> set (table_labels (columns t1))"
     "columns t1 = Flat ls" "rows t1 = range_rows R" by blast
  have ls: "ls = cs1" using sh(3) assms(3) by simp
  have icn: "index_column_names t1 = [nm]"
    using sh(1,3) ls assms(4) by (simp add: index_column_names_def)
  have key: "py_or (index_name t1) (LStr ''index'') = LStr ''index''"
    using sh(1) by (simp add: py_or_def index_name_def)
  have pos: "position_label \<in> set cs1" using sh(2) assms(3) by simp
  have main: "spectra_to_rows (Some t1) pos_names =
           (if nm \<in> set cs1 then Inl (CannotInsert nm)
            else Inr (Some (t1\<lparr> columns := Flat (map (rename_label (LStr ''index'') (LStr ''Period'')) (nm # cs1)),
                                rows := map (\<lambda>(ix, cells). (ix, ix @ cells)) (rows t1) \<rparr>)))"
  proof (cases "nm \<in> set cs1")
    case True
    then show ?thesis
      using sh(3) ls icn by (simp add: spectra_to_rows_def flat_branch_def reset_index_def)
  next
    case False
    have pr: "position_label \<in> rename_label (LStr ''index'') (LStr ''Period'') ` set cs1"
      using pos by (auto simp: rename_label_def position_label_def image_iff)
    have "flat_branch t1 pos_names =
        Inr \<lparr> index_names = [LNone],
              columns = Flat (map (rename_label (LStr ''index'') (LStr ''Period'')) (nm # cs1)),
              rows = range_rows (map (\<lambda>(ix, cs). ix @ cs) (rows t1)) \<rparr>"
      using False sh(3) ls icn key pr
      by (simp add: flat_branch_def reset_index_def rename_columns_def period_label_def)
    then show ?thesis
      using False sh(1,3) ls
      by (simp add: spectra_to_rows_def sh(4) range_rows_twice)
  qed
  have "length (map (rename_label (LStr ''index'') (LStr ''Period'')) (nm # cs1)) \<noteq> length cs1" by simp
  then have "Flat (map (rename_label (LStr ''index'') (LStr ''Period'')) (nm # cs1)) \<noteq> columns t1"
    using sh(3) ls by auto
  then have ne: "spectra_to_rows (Some t1) pos_names \<noteq> Inr (Some t1)"
    unfolding main by (auto dest: arg_cong [where f = columns])
  show ?thesis using main ne by blast
qed

lemma ex_flat_first: "spectra_to_rows (Some ex_flat) ps = Inr (Some (ex_flat_once (case ps of [] \<Rightarrow> ''Pos1'' | p # _ \<Rightarrow> p)))"
  by (simp add: spectra_to_rows_def flat_branch_def ex_flat_def ex_flat_once_def reset_index_def
      index_column_names_def rename_columns_def rename_label_def py_or_def index_name_def
      period_label_def position_label_def insert_first_def range_rows_def upt_conv_Cons)

text \<open>The theorem at a table of two bands and two periods, with no position name.\<close>

theorem flat_reshape_twice_witness:
  "spectra_to_rows (Some ex_flat) [] = Inr (Some (ex_flat_once ''Pos1''))
   \<and> spectra_to_rows (Some (ex_flat_once ''Pos1'')) [] = Inr (Some (ex_flat_twice ''Pos1''))
   \<and> spectra_to_rows (Some (ex_flat_once ''Pos1'')) [] \<noteq> Inr (Some (ex_flat_once ''Pos1''))"
proof -
  have h1: "columns ex_flat = Flat [LInt 63, LInt 125]" by (simp add: ex_flat_def)
  have h2: "spectra_to_rows (Some ex_flat) [] = Inr (Some (ex_flat_once ''Pos1''))"
    using ex_flat_first [of "[]"] by simp
  have h3: "[LStr ''Position'', LStr ''Period'', LInt 63, LInt 125] = table_labels (columns (ex_flat_once ''Pos1''))"
    by (simp add: ex_flat_once_def)
  have h4: "LStr ''index'' = (if LStr ''index'' \<in> set [LStr ''Position'', LStr ''Period'', LInt 63, LInt 125]
                              then LStr ''level_0'' else LStr ''index'')" by simp
  show ?thesis
    using h2 flat_reshape_twice [OF h1 h2 h3 h4]
    by (simp add: ex_flat_once_def ex_flat_twice_def rename_label_def)
qed

text \<open>
  Claim C4 as stated fails: the second application to the once reshaped table gives
  five columns, the first of them a new \<^verbatim>\<open>Period\<close> column of row numbers, where the
  first application gave four.
\<close>

theorem flat_reshape_twice_counterexample:
  "spectra_to_rows (Some ex_flat) [''a.csv''] = Inr (Some (ex_flat_once ''a.csv''))
   \<and> spectra_to_rows (Some (ex_flat_once ''a.csv'')) [''a.csv''] = Inr (Some (ex_flat_twice ''a.csv''))
   \<and> ex_flat_twice ''a.csv'' \<noteq> ex_flat_once ''a.csv''"
  by (simp add: spectra_to_rows_def flat_branch_def ex_flat_def ex_flat_once_def ex_flat_twice_def
      reset_index_def index_column_names_def rename_columns_def rename_label_def py_or_def
      index_name_def period_label_def position_label_def insert_first_def range_rows_def
      upt_conv_Cons)

section \<open>Spectra reshaper: no block to concatenate\<close>

text \<open>
  Claim C10. \<open>spectra_to_rows\<close> returns an absent result for an absent table only.
  For a table with a two-level header it concatenates whatever blocks the loop has
  collected: with an empty position list, and whenever the loop collects no block, as it
  does when the table is narrower than one block of the band list, the concatenation
  raises ValueError (no objects to concatenate) and nothing is returned.
\<close>

theorem spectra_to_rows_no_blocks:
  "(spectra_to_rows df pos_names = Inr None \<longleftrightarrow> df = None)
   \<and> (columns d = Multi cs \<longrightarrow> spectra_to_rows (Some d) [] = Inl NoObjectsToConcatenate)
   \<and> (collect_blocks d bands 0 pos_names = Inr [] \<longrightarrow>
        multi_branch d bands pos_names = Inl NoObjectsToConcatenate)
   \<and> (ncols (columns d) < length bands \<longrightarrow>
        multi_branch d bands pos_names = Inl NoObjectsToConcatenate)"
proof -
  have a: "spectra_to_rows df pos_names = Inr None \<longleftrightarrow> df = None"
    by (cases df) (auto simp: spectra_to_rows_def map_sum_def split: cols.splits sum.splits)
  have b: "columns d = Multi cs \<longrightarrow> spectra_to_rows (Some d) [] = Inl NoObjectsToConcatenate"
    by (simp add: spectra_to_rows_def multi_branch_def pd_concat_def)
  have c: "collect_blocks d bands 0 pos_names = Inr [] \<longrightarrow>
        multi_branch d bands pos_names = Inl NoObjectsToConcatenate"
    by (simp add: multi_branch_def pd_concat_def)
  have e: "ncols (columns d) < length bands \<longrightarrow>
        multi_branch d bands pos_names = Inl NoObjectsToConcatenate"
    by (cases pos_names) (simp_all add: multi_branch_def pd_concat_def)
  show ?thesis using a b c e by blast
qed

text \<open>The theorem at an absent table, at the example table with no position name, and at
  a band list wider than the example table.\<close>

theorem spectra_to_rows_no_blocks_witness:
  "spectra_to_rows None [''a.csv''] = (Inr None :: py_error + table option)
   \<and> spectra_to_rows (Some ex_spectra) [''a.csv''] \<noteq> Inr None
   \<and> spectra_to_rows (Some ex_spectra) [] = Inl NoObjectsToConcatenate
   \<and> multi_branch ex_spectra [LInt 31, LInt 63, LInt 125, LInt 250, LInt 500] [''a.csv'']
        = Inl NoObjectsToConcatenate"
proof -
  have h1: "columns ex_spectra = Multi ex_cols" by (simp add: ex_spectra_def)
  have h2: "ncols (columns ex_spectra) < length [LInt 31, LInt 63, LInt 125, LInt 250, LInt 500]"
    by (simp add: ex_spectra_def ex_cols_def)
  show ?thesis
    using spectra_to_rows_no_blocks [of None "[''a.csv'']" ex_spectra ex_cols
            "[LInt 31, LInt 63, LInt 125, LInt 250, LInt 500]"]
          spectra_to_rows_no_blocks [of "Some ex_spectra" "[''a.csv'']" ex_spectra ex_cols
            "[LInt 31, LInt 63, LInt 125, LInt 250, LInt 500]"]
          h1 h2
    by simp
qed

section \<open>Session state\<close>

lemma str_nat_15: "str_nat 15 = ''15''" by code_simp

text \<open>
  Claim C3. For every prior session state: when the newly built period string differs
  from the stored one, the period step sets \<open>apply_agg\<close> to false and stores the new
  string, in one update; otherwise it leaves the state alone. The button step sets
  \<open>apply_agg\<close> to true and is the only step that does. A run changes the session
  through these two steps only, the period step first: with no uploaded file the session
  is left as it was, and otherwise \<open>apply_agg\<close> ends true exactly when the button was
  pressed in that run, or it was true before and the period string did not change.
\<close>

theorem view_state_transitions:
  "(period_last st \<noteq> p \<longrightarrow> period_step p st = \<lparr> apply_agg = False, period_last = p \<rparr>)
   \<and> (period_last st = p \<longrightarrow> period_step p st = st)
   \<and> apply_step True st = st\<lparr> apply_agg := True \<rparr>
   \<and> apply_step False st = st
   \<and> (files = [] \<longrightarrow> session (run_script E files n u btn st d) = st)
   \<and> (files \<noteq> [] \<longrightarrow>
        session (run_script E files n u btn st d)
          = apply_step btn (period_step (build_period n u) st)
        \<and> session (run_script E files n u btn st d)
          = \<lparr> apply_agg = (btn \<or> (apply_agg st \<and> period_last st = build_period n u)),
              period_last = build_period n u \<rparr>)"
  by (cases st) (auto simp: period_step_def apply_step_def run_script_def sidebar_def Let_def split: prod.splits option.splits)

text \<open>The theorem at a period change, at an unchanged period, at a run without files, at
  a run with the button pressed and at a run with a changed unit.\<close>

theorem view_state_transitions_witness:
  "period_step ''5min'' \<lparr> apply_agg = True, period_last = ''15min'' \<rparr>
     = \<lparr> apply_agg = False, period_last = ''5min'' \<rparr>
   \<and> period_step ''15min'' \<lparr> apply_agg = True, period_last = ''15min'' \<rparr>
     = \<lparr> apply_agg = True, period_last = ''15min'' \<rparr>
   \<and> session (run_script ex_engine ([] :: upload list) 5 ''minute(s)'' True ex_state []) = ex_state
   \<and> session (run_script ex_engine [ex_good] 15 ''minute(s)'' True ex_state [])
     = \<lparr> apply_agg = True, period_last = ''15min'' \<rparr>
   \<and> session (run_script ex_engine [ex_good] 15 ''hour(s)'' False
                (\<lparr> apply_agg = True, period_last = ''15min'' \<rparr>) [])
     = \<lparr> apply_agg = False, period_last = ''15h'' \<rparr>"
proof -
  have b1: "build_period 15 ''minute(s)'' = ''15min''"
    by (simp add: build_period_def suffix_map_def str_int_def str_nat_15)
  have b2: "build_period 15 ''hour(s)'' = ''15h''"
    by (simp add: build_period_def suffix_map_def str_int_def str_nat_15)
  show ?thesis
    using view_state_transitions [of "\<lparr> apply_agg = True, period_last = ''15min'' \<rparr>" "''5min''"
            "[] :: upload list" ex_engine 5 "''minute(s)''" True "[]"]
          view_state_transitions [of "\<lparr> apply_agg = True, period_last = ''15min'' \<rparr>" "''15min''"
            "[ex_good]" ex_engine 15 "''hour(s)''" False "[]"]
          view_state_transitions [of ex_state "''15min''"
            "[] :: upload list" ex_engine 5 "''minute(s)''" True "[]"]
          view_state_transitions [of ex_state "''15min''"
            "[ex_good]" ex_engine 15 "''minute(s)''" True "[]"]
    by (simp add: b1 b2 ex_state_def period_step_def apply_step_def)
qed

section \<open>Temporary files\<close>

lemma fold_max_ge: "x \<in> set xs \<Longrightarrow> x \<le> fold max xs (a :: nat)"
proof (induction xs arbitrary: a)
  case Nil
  then show ?case by simp
next
  case (Cons y ys)
  have mono: "\<And>b. b \<le> fold max ys b"
  proof -
    fix b show "b \<le> fold max ys b"
      by (induction ys arbitrary: b) (auto intro: order_trans [OF max.cobounded2])
  qed
  show ?case
  proof (cases "x = y")
    case True
    have "y \<le> max y a" by simp
    also have "\<dots> \<le> fold max ys (max y a)" by (rule mono)
    finally show ?thesis using True by simp
  next
    case False
    then have "x \<in> set ys" using Cons.prems by simp
    then show ?thesis using Cons.IH by simp
  qed
qed

lemma fresh_path_new: "fresh_path d \<notin> fst ` set d"
proof
  assume "fresh_path d \<in> fst ` set d"
  then have "fresh_path d \<in> set (map fst d)" by simp
  then have "fresh_path d \<le> fold max (map fst d) 0" by (rule fold_max_ge)
  then show False by (simp add: fresh_path_def)
qed

lemma unlink_fresh: "unlink (fresh_path d) ((fresh_path d, b) # d) = d"
proof -
  have "\<forall>x \<in> set d. fst x \<noteq> fresh_path d"
    using fresh_path_new [of d] by (auto simp: image_iff)
  then have "filter (\<lambda>(q, b). q \<noteq> fresh_path d) d = d"
    by (intro filter_True) auto
  then show ?thesis by (simp add: unlink_def)
qed

lemma disk_load_file: "disk_of (load_file E uf s) = disk_of s"
  by (simp add: load_file_def Let_def unlink_fresh)

lemma disk_fold_load: "disk_of (fold (load_file E) files s) = disk_of s"
  by (induction files arbitrary: s) (simp_all add: disk_load_file)

lemma disk_load_files: "disk_of (load_files E files d) = d"
  by (simp add: load_files_def disk_fold_load)

text \<open>
  Claim C6. For every uploaded file and every behaviour of the log constructor, success
  or exception: the temporary file is on the disk with the upload's bytes when the
  constructor is called, and after the file's loop iteration the disk is what it was
  before it, so the temporary path is on it no longer. Hence the disk after the whole
  ingestion, and after the run, is the disk before it.
\<close>

theorem temp_file_removed:
  "disk_of (load_file E uf s) = disk_of s
   \<and> fresh_path (disk_of s) \<notin> fst ` set (disk_of (load_file E uf s))
   \<and> map_of ((fresh_path (disk_of s), file_bytes uf) # disk_of s) (fresh_path (disk_of s))
        = Some (file_bytes uf)
   \<and> disk_of (load_files E files d) = d
   \<and> disk_after (run_script E files n u btn st d) = d"
proof -
  have "disk_after (run_script E files n u btn st d) = d"
    by (auto simp: run_script_def sidebar_def Let_def disk_load_files split: prod.splits option.splits)
  then show ?thesis
    by (simp add: disk_load_file disk_load_files fresh_path_new)
qed

text \<open>The theorem at a file that fails to parse and at one that parses, on a disk that
  holds another file.\<close>

theorem temp_file_removed_witness:
  "disk_of (load_file ex_engine ex_bad \<lparr> disk_of = [(3, ''other'')], logs_of = [], shown = [] \<rparr>)
     = [(3, ''other'')]
   \<and> disk_of (load_file ex_engine ex_good \<lparr> disk_of = [(3, ''other'')], logs_of = [], shown = [] \<rparr>)
     = [(3, ''other'')]
   \<and> shown (load_file ex_engine ex_bad \<lparr> disk_of = [(3, ''other'')], logs_of = [], shown = [] \<rparr>)
     = [Error_load ''bad.csv'' ''cannot parse'']
   \<and> logs_of (load_file ex_engine ex_good \<lparr> disk_of = [(3, ''other'')], logs_of = [], shown = [] \<rparr>)
     = [(''good.csv'', ''ok'')]
   \<and> disk_after (run_script ex_engine [ex_bad, ex_good] 15 ''minute(s)'' False ex_state [(3, ''other'')])
     = [(3, ''other'')]"
  using temp_file_removed [of ex_engine ex_bad "\<lparr> disk_of = [(3, ''other'')], logs_of = [], shown = [] \<rparr>"
          "[ex_bad, ex_good]" "[(3, ''other'')]" 15 "''minute(s)''" False ex_state]
        temp_file_removed [of ex_engine ex_good "\<lparr> disk_of = [(3, ''other'')], logs_of = [], shown = [] \<rparr>"
          "[ex_bad, ex_good]" "[(3, ''other'')]" 15 "''minute(s)''" False ex_state]
  by (simp add: load_file_def ex_engine_def ex_bad_def ex_good_def fresh_path_def Let_def)

section \<open>Position tabs\<close>

text \<open>
  Claim C7. In the aggregated state, for a position whose log is found: when the
  interval call of the engine raises, the position's tab holds the integration error
  naming the file and nothing else, neither chart nor table nor the raw master table,
  and the loop goes on with the next tab. The same holds when the index reset of the
  aggregated table raises, which the same \<^verbatim>\<open>try\<close> covers.
\<close>

theorem aggregation_failure_skips_position:
  assumes "map_of logs (file_name uf) = Some lg" and "apply_agg st"
  shows "(as_interval E lg period = Inl e \<longrightarrow>
            render_position E st period logs uf
              = ([Error_integration (file_name uf) (EngineError e)], None)
          \<and> position_tabs E st period logs (tab # tabs) (uf # files)
              = ((tab, [Error_integration (file_name uf) (EngineError e)])
                   # fst (position_tabs E st period logs tabs files),
                 snd (position_tabs E st period logs tabs files)))
       \<and> (as_interval E lg period = Inr df \<and> reset_index df = Inl e' \<longrightarrow>
            render_position E st period logs uf
              = ([Error_integration (file_name uf) (PandasError e')], None))"
  using assms
  by (auto simp: render_position_def select_source_def split: prod.splits)

text \<open>The theorem at an engine that rejects the period, and at one whose aggregated
  table has a column named like its index.\<close>

theorem aggregation_failure_skips_position_witness:
  "render_position ex_engine \<lparr> apply_agg = True, period_last = ''5min'' \<rparr> ''5min''
       [(''good.csv'', ''ok'')] ex_good
     = ([Error_integration ''good.csv'' (EngineError ''period too fine'')], None)
   \<and> position_tabs ex_engine \<lparr> apply_agg = True, period_last = ''5min'' \<rparr> ''5min''
       [(''good.csv'', ''ok'')] [''good.csv''] [ex_good]
     = ([(''good.csv'', [Error_integration ''good.csv'' (EngineError ''period too fine'')])], None)
   \<and> render_position (ex_engine\<lparr> as_interval := \<lambda>lg t. Inr ex_clash \<rparr>)
       \<lparr> apply_agg = True, period_last = ''5min'' \<rparr> ''5min'' [(''good.csv'', ''ok'')] ex_good
     = ([Error_integration ''good.csv'' (PandasError (CannotInsert (LStr ''Leq A'')))], None)"
proof -
  have h1: "map_of [(''good.csv'', ''ok'')] (file_name ex_good) = Some ''ok''"
    by (simp add: ex_good_def)
  have h2: "apply_agg \<lparr> apply_agg = True, period_last = ''5min'' \<rparr>" by simp
  have f1: "as_interval ex_engine ''ok'' ''5min'' = Inl ''period too fine''"
    by (simp add: ex_engine_def)
  have f2: "as_interval (ex_engine\<lparr> as_interval := \<lambda>lg t. Inr ex_clash \<rparr>) ''ok'' ''5min'' = Inr ex_clash
            \<and> reset_index ex_clash = Inl (CannotInsert (LStr ''Leq A''))"
    by (simp add: reset_index_def ex_clash_def index_column_names_def)
  show ?thesis
    using aggregation_failure_skips_position [OF h1 h2, of ex_engine "''5min''" "''period too fine''"
            "''good.csv''" "[]" "[]" ex_clash "CannotInsert (LStr ''Leq A'')"]
          aggregation_failure_skips_position [OF h1 h2, of "ex_engine\<lparr> as_interval := \<lambda>lg t. Inr ex_clash \<rparr>"
            "''5min''" "''period too fine''" "''good.csv''" "[]" "[]" ex_clash "CannotInsert (LStr ''Leq A'')"]
          f1 f2
    by (simp add: ex_good_def)
qed

text \<open>
  Claim C8, as amended. When one of the columns \<^verbatim>\<open>Leq A\<close>, \<^verbatim>\<open>L90 A\<close>,
  \<^verbatim>\<open>Lmax A\<close> is missing from the flattened header, the view shows two equal
  warnings, one for each skipped chart, then the subheader and the full table. Each
  warning names the whole required set and the data label, whichever columns are
  missing.
\<close>

theorem missing_columns_warning:
  assumes "c \<in> required_cols" and "LStr c \<notin> set (plot_columns (columns df_used))"
  shows "render_view df_used subheader =
           ([Warning_missing {''Leq A'', ''L90 A'', ''Lmax A''} subheader,
             Warning_missing {''Leq A'', ''L90 A'', ''Lmax A''} subheader,
             Subheader subheader, Dataframe df_used], None)"
proof -
  have "\<not> has_required (plot_columns (columns df_used))"
    using assms by (auto simp: has_required_def)
  then show ?thesis
    by (simp add: render_view_def required_cols_def)
qed

text \<open>The theorem at a table without \<^verbatim>\<open>Lmax A\<close>.\<close>

theorem missing_columns_warning_witness:
  "render_view ex_no_lmax ''Raw Survey Data'' =
           ([Warning_missing {''Leq A'', ''L90 A'', ''Lmax A''} ''Raw Survey Data'',
             Warning_missing {''Leq A'', ''L90 A'', ''Lmax A''} ''Raw Survey Data'',
             Subheader ''Raw Survey Data'', Dataframe ex_no_lmax], None)"
proof -
  have h1: "''Lmax A'' \<in> required_cols" by (simp add: required_cols_def)
  have h2: "LStr ''Lmax A'' \<notin> set (plot_columns (columns ex_no_lmax))"
    by (simp add: ex_no_lmax_def)
  show ?thesis
    using missing_columns_warning [OF h1 h2] by simp
qed

text \<open>
  Claim C8 as stated fails on a table that has \<^verbatim>\<open>Leq A\<close> and \<^verbatim>\<open>L90 A\<close> and lacks
  \<^verbatim>\<open>Lmax A\<close>: the warning does not name the missing set, which is \<^verbatim>\<open>Lmax A\<close>
  alone, but all three required columns.
\<close>

theorem missing_columns_warning_counterexample:
  "LStr ''Leq A'' \<in> set (plot_columns (columns ex_no_lmax))
   \<and> LStr ''L90 A'' \<in> set (plot_columns (columns ex_no_lmax))
   \<and> LStr ''Lmax A'' \<notin> set (plot_columns (columns ex_no_lmax))
   \<and> fst (render_view ex_no_lmax ''Raw Survey Data'') ! 0
        = Warning_missing {''Leq A'', ''L90 A'', ''Lmax A''} ''Raw Survey Data''
   \<and> fst (render_view ex_no_lmax ''Raw Survey Data'') ! 0
        \<noteq> Warning_missing {''Lmax A''} ''Raw Survey Data''"
  by (simp add: render_view_def has_required_def required_cols_def ex_no_lmax_def)

section \<open>Tabs and uploaded files\<close>

lemma load_file_parsed:
  assumes "parses E (disk_of s) uf"
  shows "map fst (logs_of (load_file E uf s)) =
           (if file_name uf \<in> set (map fst (logs_of s)) then map fst (logs_of s)
            else map fst (logs_of s) @ [file_name uf])
         \<and> shown (load_file E uf s) = shown s \<and> disk_of (load_file E uf s) = disk_of s"
proof -
  obtain lg where lg: "log_ctor E ((fresh_path (disk_of s), file_bytes uf) # disk_of s)
                         (fresh_path (disk_of s)) = Inr lg"
    using assms by (auto simp: parses_def split: sum.splits)
  show ?thesis
    by (simp add: load_file_def Let_def lg update_keys unlink_fresh)
qed

lemma fold_load_parsed:
  assumes "\<forall>uf \<in> set files. parses E (disk_of s) uf"
    and "distinct (map file_name files)"
    and "set (map file_name files) \<inter> set (map fst (logs_of s)) = {}"
  shows "map fst (logs_of (fold (load_file E) files s)) = map fst (logs_of s) @ map file_name files
         \<and> shown (fold (load_file E) files s) = shown s"
  using assms
proof (induction files arbitrary: s)
  case Nil
  then show ?case by simp
next
  case (Cons uf files)
  let ?s = "load_file E uf s"
  have p: "parses E (disk_of s) uf" using Cons.prems(1) by simp
  have nin: "file_name uf \<notin> set (map fst (logs_of s))" using Cons.prems(3) by auto
  have k: "map fst (logs_of ?s) = map fst (logs_of s) @ [file_name uf]"
    and sh: "shown ?s = shown s" and dk: "disk_of ?s = disk_of s"
    using load_file_parsed [OF p] nin by simp_all
  have a1: "\<forall>u \<in> set files. parses E (disk_of ?s) u" using Cons.prems(1) dk by simp
  have a2: "distinct (map file_name files)" using Cons.prems(2) by simp
  have a3: "set (map file_name files) \<inter> set (map fst (logs_of ?s)) = {}"
    using Cons.prems(2,3) k by auto
  from Cons.IH [OF a1 a2 a3] show ?case by (simp add: k sh)
qed

lemma map_fst_position_tabs:
  "map fst (fst (position_tabs E st period logs tabs files)) = tabs"
  by (induction E st period logs tabs files rule: position_tabs.induct)
     (auto simp: comp_def split: prod.splits option.splits)

lemma run_script_rendered:
  assumes "files \<noteq> []"
  shows "rendered (run_script E files n u btn st d) =
     Some \<lparr> main_area = shown (load_files E files d),
            tab_labels = ''Summary'' # map fst (logs_of (load_files E files d)),
            summary_content = fst (summary_tab (build_summary E (logs_of (load_files E files d)))
                                     (map fst (logs_of (load_files E files d)))),
            position_content = fst (case snd (summary_tab (build_summary E (logs_of (load_files E files d)))
                                     (map fst (logs_of (load_files E files d)))) of
                 Some e \<Rightarrow> (map (\<lambda>t. (t, [])) (map fst (logs_of (load_files E files d))), Some e)
               | None \<Rightarrow> position_tabs E (apply_step btn (period_step (build_period n u) st))
                           (build_period n u) (logs_of (load_files E files d))
                           (map fst (logs_of (load_files E files d))) files),
            uncaught = snd (case snd (summary_tab (build_summary E (logs_of (load_files E files d)))
                                     (map fst (logs_of (load_files E files d)))) of
                 Some e \<Rightarrow> (map (\<lambda>t. (t, [])) (map fst (logs_of (load_files E files d))), Some e)
               | None \<Rightarrow> position_tabs E (apply_step btn (period_step (build_period n u) st))
                           (build_period n u) (logs_of (load_files E files d))
                           (map fst (logs_of (load_files E files d))) files),
            survey_input = (if logs_of (load_files E files d) \<noteq> []
                            then map fst (survey_logs (survey_cap E) (logs_of (load_files E files d)))
                            else []) \<rparr>"
  using assms by (simp add: run_script_def sidebar_def Let_def case_prod_beta split: option.splits)

text \<open>
  Claim C9. The uploaded file set is one or more files, each with a distinct display
  name. For every such set in which every file parses: the tabs are \<^verbatim>\<open>Summary\<close>
  followed by one tab per uploaded file, labelled with the file names in upload order,
  so that there are as many position tabs as uploaded files, and no load error is shown.
\<close>

theorem tabs_match_uploads:
  assumes "files \<noteq> []" and "distinct (map file_name files)"
    and "\<forall>uf \<in> set files. parses E d uf"
  shows "map_option tab_labels (rendered (run_script E files n u btn st d))
           = Some (''Summary'' # map file_name files)
       \<and> map_option (\<lambda>pg. map fst (position_content pg)) (rendered (run_script E files n u btn st d))
           = Some (map file_name files)
       \<and> map_option main_area (rendered (run_script E files n u btn st d)) = Some []"
proof -
  have l: "map fst (logs_of (load_files E files d)) = map file_name files"
      and sh: "shown (load_files E files d) = []"
    using fold_load_parsed [of files E "\<lparr> disk_of = d, logs_of = [], shown = [] \<rparr>"] assms
    by (simp_all add: load_files_def)
  have pc: "\<And>c. map fst (fst (case c of
                 Some e \<Rightarrow> (map (\<lambda>t. (t, [])) (map fst (logs_of (load_files E files d))), Some e)
               | None \<Rightarrow> position_tabs E (apply_step btn (period_step (build_period n u) st))
                           (build_period n u) (logs_of (load_files E files d))
                           (map fst (logs_of (load_files E files d))) files))
              = map fst (logs_of (load_files E files d))"
    by (simp add: map_fst_position_tabs comp_def split: option.splits)
  show ?thesis
    by (simp add: run_script_rendered [OF assms(1)] sh pc) (simp add: l)
qed

text \<open>The theorem at two files that parse.\<close>

theorem tabs_match_uploads_witness:
  "map_option tab_labels (rendered (run_script ex_engine
       [ex_good, \<lparr> file_name = ''roof.csv'', file_bytes = ''ok2'' \<rparr>] 15 ''minute(s)'' False ex_state []))
           = Some [''Summary'', ''good.csv'', ''roof.csv'']
   \<and> map_option (\<lambda>pg. map fst (position_content pg)) (rendered (run_script ex_engine
       [ex_good, \<lparr> file_name = ''roof.csv'', file_bytes = ''ok2'' \<rparr>] 15 ''minute(s)'' False ex_state []))
           = Some [''good.csv'', ''roof.csv'']"
proof -
  let ?files = "[ex_good, \<lparr> file_name = ''roof.csv'', file_bytes = ''ok2'' \<rparr>]"
  have h1: "?files \<noteq> []" by simp
  have h2: "distinct (map file_name ?files)" by (simp add: ex_good_def)
  have h3: "\<forall>uf \<in> set ?files. parses ex_engine [] uf"
    by (simp add: parses_def ex_engine_def ex_good_def fresh_path_def)
  show ?thesis
    using tabs_match_uploads [OF h1 h2 h3, of 15 "''minute(s)''" False ex_state]
    by (simp add: ex_good_def)
qed

text \<open>
  The distinct names matter: the log dictionary has one entry per name, so two uploads
  of one name, which the file set of the claim excludes, would share one position tab.
\<close>

lemma same_name_uploads_share_tab:
  "parses ex_engine [] ex_good
   \<and> map_option tab_labels (rendered (run_script ex_engine [ex_good, ex_good] 15 ''minute(s)'' False ex_state []))
       = Some [''Summary'', ''good.csv'']
   \<and> map_option (\<lambda>pg. length (position_content pg))
        (rendered (run_script ex_engine [ex_good, ex_good] 15 ''minute(s)'' False ex_state []))
       = Some 1"
  by code_simp

text \<open>
  Claim C2 at the upload list \<^verbatim>\<open>[bad.csv, good.csv]\<close>, where the first file fails to
  parse. The load error names \<^verbatim>\<open>bad.csv\<close>, the second file is still loaded, and the
  survey and the tab labels hold \<^verbatim>\<open>good.csv\<close> only. But the loop of line 190 pairs
  the tabs with all uploaded files, so the tab labelled \<^verbatim>\<open>good.csv\<close> is filled from
  \<^verbatim>\<open>bad.csv\<close>: it shows that no log was found for \<^verbatim>\<open>bad.csv\<close>, and the data of
  \<^verbatim>\<open>good.csv\<close> is shown nowhere.
\<close>

theorem misaligned_tab_evaluation:
  "rendered (run_script ex_engine [ex_bad, ex_good] 15 ''minute(s)'' False ex_state []) =
     Some \<lparr> main_area = [Error_load ''bad.csv'' ''cannot parse''],
            tab_labels = [''Summary'', ''good.csv''],
            summary_content = [Subheader ''BS8233 Residential Summary'', Warning_summary ''''],
            position_content = [(''good.csv'', [Error_not_found ''bad.csv''])],
            uncaught = None,
            survey_input = [''good.csv''] \<rparr>"
  by code_simp

section \<open>L90 distribution\<close>

lemma dropna_append: "dropna (xs @ ys) = dropna xs @ dropna ys"
  by (simp add: dropna_def)

lemma dropna_map_Some: "dropna (map Some ys) = ys"
  by (induction ys) (simp_all add: dropna_def)

lemma dropna_only_None: "dropna (filter (\<lambda>x. x = None) xs) = []"
  by (induction xs) (simp_all add: dropna_def)

lemma dropna_sort_values: "dropna (sort_values xs) = sort (dropna xs)"
  by (simp add: sort_values_def dropna_append dropna_map_Some dropna_only_None)

lemma dropna_round0: "dropna (round0 xs) = map (\<lambda>x. of_int (round_half_even x)) (dropna xs)"
  by (induction xs) (auto simp: dropna_def round0_def split: option.splits)

lemma count_list_sort: "count_list (sort xs) v = count_list xs v"
proof -
  have "count (mset (sort xs)) v = count (mset xs) v" by simp
  then show ?thesis by (simp only: count_mset)
qed

lemma sorted_pairs:
  assumes "distinct ds"
  shows "sort_key fst (sort_key g (map (\<lambda>v. (v, f v)) ds))
           = map (\<lambda>k. (k, f k)) (sorted_list_of_set (set ds))"
proof -
  let ?M = "map (\<lambda>v. (v, f v)) ds"
  let ?L = "sort_key fst (sort_key g ?M)"
  have ms: "mset ?L = mset ?M" by simp
  have "mset (map fst ?L) = mset (map fst ?M)"
    using ms by (metis mset_map)
  also have "\<dots> = mset ds" by (simp add: comp_def)
  finally have mk: "mset (map fst ?L) = mset ds" .
  then have dk: "distinct (map fst ?L)"
    using assms by (metis mset_eq_imp_distinct_iff)
  have sk: "sorted (map fst ?L)" by (rule sorted_sort_key)
  have "set (map fst ?L) = set ds" using mk by (metis mset_eq_setD)
  then have keys: "map fst ?L = sorted_list_of_set (set ds)"
    using dk sk by (metis sorted_list_of_set.idem_if_sorted_distinct)
  have "set ?L = set ?M" using ms by (metis mset_eq_setD)
  then have el: "\<forall>p \<in> set ?L. p = (fst p, f (fst p))" by auto
  have "\<And>p. p \<in> set ?L \<Longrightarrow> (fst p, f (fst p)) = p"
    using el by metis
  then have "map (\<lambda>p. (fst p, f (fst p))) ?L = ?L" by (rule map_idI)
  then have "?L = map (\<lambda>p. (fst p, f (fst p))) ?L" by simp
  also have "\<dots> = map (\<lambda>k. (k, f k)) (map fst ?L)" by (simp add: comp_def)
  finally show ?thesis using keys by simp
qed

lemma cumsum_from_counts:
  assumes "sorted ks" and "distinct ks"
  shows "cumsum_from acc (map (\<lambda>k. (k, count_list vs k)) ks)
           = map (\<lambda>k. (k, acc + length (filter (\<lambda>v. v \<in> set ks \<and> v \<le> k) vs))) ks"
  using assms
proof (induction ks arbitrary: acc)
  case Nil
  then show ?case by simp
next
  case (Cons k ks)
  have gt: "\<forall>x \<in> set ks. k < x" using Cons.prems by (auto simp: order_less_le)
  have hd: "filter (\<lambda>v. v \<in> set (k # ks) \<and> v \<le> k) vs = filter (\<lambda>v. v = k) vs"
    using gt by (intro filter_cong) auto
  have cnt: "count_list vs k = length (filter (\<lambda>v. v = k) vs)"
    by (induction vs) auto
  have tl: "\<And>x. x \<in> set ks \<Longrightarrow>
      length (filter (\<lambda>v. v \<in> set (k # ks) \<and> v \<le> x) vs)
        = count_list vs k + length (filter (\<lambda>v. v \<in> set ks \<and> v \<le> x) vs)"
  proof -
    fix x assume x: "x \<in> set ks"
    have kx: "k < x" using gt x by simp
    have nk: "k \<notin> set ks" using Cons.prems by simp
    show "length (filter (\<lambda>v. v \<in> set (k # ks) \<and> v \<le> x) vs)
        = count_list vs k + length (filter (\<lambda>v. v \<in> set ks \<and> v \<le> x) vs)"
      unfolding cnt using kx nk by (induction vs) auto
  qed
  have hdl: "length (filter (\<lambda>v. v \<in> set (k # ks) \<and> v \<le> k) vs) = count_list vs k"
    unfolding hd cnt ..
  have ih: "cumsum_from (acc + count_list vs k) (map (\<lambda>k. (k, count_list vs k)) ks)
      = map (\<lambda>x. (x, acc + count_list vs k + length (filter (\<lambda>v. v \<in> set ks \<and> v \<le> x) vs))) ks"
    using Cons.IH [of "acc + count_list vs k"] Cons.prems by simp
  have rest: "map (\<lambda>x. (x, acc + count_list vs k + length (filter (\<lambda>v. v \<in> set ks \<and> v \<le> x) vs))) ks
      = map (\<lambda>x. (x, acc + length (filter (\<lambda>v. v \<in> set (k # ks) \<and> v \<le> x) vs))) ks"
    using tl by (intro map_cong) simp_all
  have "cumsum_from acc (map (\<lambda>k. (k, count_list vs k)) (k # ks))
      = (k, acc + count_list vs k) # cumsum_from (acc + count_list vs k) (map (\<lambda>k. (k, count_list vs k)) ks)"
    by simp
  also have "\<dots> = (k, acc + length (filter (\<lambda>v. v \<in> set (k # ks) \<and> v \<le> k) vs))
      # map (\<lambda>x. (x, acc + length (filter (\<lambda>v. v \<in> set (k # ks) \<and> v \<le> x) vs))) ks"
    by (simp only: ih rest hdl)
  finally show ?case by (simp only: list.map)
qed

lemma cumsum_counts:
  "cumsum (map (\<lambda>k. (k, count_list vs k)) (sorted_list_of_set (set vs)))
     = map (\<lambda>k. (k, length (filter (\<lambda>v. v \<le> k) vs))) (sorted_list_of_set (set vs))"
proof -
  let ?ks = "sorted_list_of_set (set vs)"
  have "\<And>k. filter (\<lambda>v. v \<in> set ?ks \<and> v \<le> k) vs = filter (\<lambda>v. v \<le> k) vs"
    by (intro filter_cong) auto
  then show ?thesis
    using cumsum_from_counts [of ?ks 0 vs] by (simp add: cumsum_def)
qed

lemma pipeline_counts:
  assumes "vs = dropna (round0 l90)"
  shows "cumsum (sort_index (value_counts (sort_values (round0 l90))))
     = map (\<lambda>k. (k, length (filter (\<lambda>v. v \<le> k) vs))) (sorted_list_of_set (set vs))"
proof -
  have vc: "value_counts (sort_values (round0 l90))
      = sort_key (\<lambda>(v, c). - int c) (map (\<lambda>v. (v, count_list vs v)) (remdups (sort vs)))"
    by (simp add: value_counts_def Let_def dropna_sort_values assms count_list_sort)
  have "sort_index (value_counts (sort_values (round0 l90)))
      = map (\<lambda>k. (k, count_list vs k)) (sorted_list_of_set (set (remdups (sort vs))))"
    unfolding vc sort_index_def by (rule sorted_pairs) simp
  then show ?thesis by (simp add: cumsum_counts)
qed

lemma sorted_le_last: "sorted xs \<Longrightarrow> x \<in> set xs \<Longrightarrow> x \<le> last (xs :: rat list)"
  by (induction xs) auto

lemma round_half_even_near: "\<bar>rat_of_int (round_half_even x) - x\<bar> \<le> 1 / 2"
proof -
  have "rat_of_int \<lfloor>x\<rfloor> \<le> x" "x < rat_of_int \<lfloor>x\<rfloor> + 1" by linarith+
  then show ?thesis
    by (auto simp: round_half_even_def Let_def abs_le_iff)
qed

text \<open>
  Claim C5, as amended. For every L90 series with at least one value that is not NaN:
  every value is rounded to a nearest integer (a tie goes to the even one), the bins are
  the distinct rounded values in ascending order, and the point of the bin \<open>k\<close> is the
  number of rounded values up to \<open>k\<close>, which is the running sum of the bin counts,
  divided by the number of values and multiplied by 100. The last point is exactly 100.
  NaN entries are counted in no bin.
\<close>

theorem l90_cumulative_percent:
  assumes "vs = map (\<lambda>x. rat_of_int (round_half_even x)) (dropna l90)"
    and "dropna l90 \<noteq> []"
  shows "l90_cumulative l90 =
           Inr (map (\<lambda>k. (k, rat_of_nat (length (filter (\<lambda>v. v \<le> k) vs)) / rat_of_nat (length vs) * 100))
                  (sorted_list_of_set (set vs)))
       \<and> map_sum id (\<lambda>curve. snd (last curve)) (l90_cumulative l90) = Inr 100
       \<and> (\<forall>x. \<bar>rat_of_int (round_half_even x) - x\<bar> \<le> 1 / 2)"
proof -
  let ?ks = "sorted_list_of_set (set vs)"
  let ?cum = "map (\<lambda>k. (k, length (filter (\<lambda>v. v \<le> k) vs))) ?ks"
  have vs: "vs = dropna (round0 l90)" using assms(1) by (simp add: dropna_round0)
  have ne: "vs \<noteq> []" using assms by simp
  then have kne: "?ks \<noteq> []" by simp
  have cum: "cumsum (sort_index (value_counts (sort_values (round0 l90)))) = ?cum"
    using pipeline_counts [OF vs] .
  have "\<And>v. v \<in> set vs \<Longrightarrow> v \<le> last ?ks"
  proof -
    fix v assume "v \<in> set vs"
    then have "v \<in> set ?ks" by simp
    moreover have "sorted ?ks" by simp
    ultimately show "v \<le> last ?ks" by (rule sorted_le_last [rotated])
  qed
  then have all: "filter (\<lambda>v. v \<le> last ?ks) vs = vs"
    by (intro filter_True) simp
  have lastc: "snd (last ?cum) = length vs"
    using kne all by (simp add: last_map)
  have pos: "rat_of_nat (length vs) \<noteq> 0" using ne by simp
  have main: "l90_cumulative l90 =
           Inr (map (\<lambda>k. (k, rat_of_nat (length (filter (\<lambda>v. v \<le> k) vs)) / rat_of_nat (length vs) * 100)) ?ks)"
    unfolding l90_cumulative_def cum to_percent_def
    using kne lastc by (simp add: comp_def)
  have fin: "map_sum id (\<lambda>curve. snd (last curve)) (l90_cumulative l90) = Inr 100"
    unfolding main using kne pos all
    by (simp add: last_map)
  show ?thesis using main fin round_half_even_near by blast
qed

text \<open>The theorem at a series of four values and one NaN.\<close>

theorem l90_cumulative_percent_witness:
  "l90_cumulative ex_l90 = Inr [(44, 25), (46, 75), (47, 100)]
   \<and> map_sum id (\<lambda>curve. snd (last curve)) (l90_cumulative ex_l90) = Inr 100"
proof -
  have a: "l90_cumulative ex_l90 = Inr [(44, 25), (46, 75), (47, 100)]"
    by code_simp
  have h: "dropna ex_l90 \<noteq> []" by (simp add: dropna_def ex_l90_def)
  show ?thesis
    using a l90_cumulative_percent [OF refl h] by simp
qed

text \<open>
  Claim C5 as stated fails on a series that is not empty and holds NaN only: no bin is
  left, \<^verbatim>\<open>iloc[-1]\<close> raises IndexError, and the view ends after the time history
  chart, with no cumulative curve and no table.
\<close>

theorem l90_cumulative_percent_counterexample:
  "[None, None] \<noteq> ([] :: rat option list)
   \<and> l90_cumulative [None, None] = Inl IndexOutOfBounds
   \<and> render_view ex_all_nan ''Raw Survey Data'' =
       ([Plotly_chart (Time_history
           (Series [CStr ''2024-05-01 10:00'', CStr ''2024-05-01 10:15''])
           (Series [CNum 55, CNum 54]) (Series [CNaN, CNaN]) (Series [CNum 70, CNum 68]))],
        Some IndexOutOfBounds)"
  by code_simp

section \<open>Summary charts and flattened headers\<close>

text \<open>
  A flat table whose index is named by the empty string keeps that name for its index
  column, so the tidy table has no \<^verbatim>\<open>Period\<close> column and the chart loop raises
  KeyError at its first trace. The example table of two bands gives a chart with one
  trace per row.
\<close>

lemma spectra_chart_without_period:
  "spectra_charts [(''Typical Leq Spectra'', Some ex_blank_index)] [''a.csv'']
     = ([], Some (KeyMissing ''Period''))
   \<and> spectra_charts [(''Typical Leq Spectra'', Some ex_flat)] [''a.csv'']
     = ([Plotly_chart (Spectra_chart ''Typical Leq Spectra'' (ex_flat_once ''a.csv'')
           [LInt 63, LInt 125] [(''a.csv'', 0), (''a.csv'', 1)])], None)"
  by code_simp

text \<open>
  The flattened header of a two-level table: an empty second level leaves the first
  level alone, and a trailing separator or no-break space is stripped, so that all
  three required columns are found.
\<close>

lemma flattened_header_is_stripped:
  "plot_columns (columns ex_two_level)
     = [LStr ''Timestamp'', LStr ''Leq A'', LStr ''L90 A'', LStr ''Lmax A'']
   \<and> has_required (plot_columns (columns ex_two_level))"
  by code_simp

end
